theory Spec2Isabelle
  imports Main "HOL-Library.Word" "HOL-Library.Sublist"
begin

unbundle bit_operations_syntax

section \<open>Bytes, paths, exceptions and the observable world\<close>

type_synonym byte = "8 word"
type_synonym path = string
type_synonym fs = "path \<rightharpoonup> byte list"

text \<open>The Python exceptions that the modelled code can meet. \<open>Exception\<close> carries the
  message of a bare \<^verbatim>\<open>raise Exception(...)\<close>.\<close>

datatype exn =
    FileNotFoundError
  | OSError
  | ValueError
  | TypeError
  | KeyError
  | AttributeError
  | BadZipFile
  | CalledProcessError int
  | TransportError
  | Exception string

datatype level = INFO | WARNING | ERROR

text \<open>What a run leaves behind besides the files: log records, calls of the HTTP client
  and the processing steps that were entered.\<close>

datatype step = Decrypt | Repair | Repack | Cleanup | Extract

datatype event =
    Log level
  | HttpRequest string "(string \<times> string) list"
  | HttpDownload string "path option"
  | Step step

record world =
  files :: fs
  events :: "event list"

definition emit :: "event \<Rightarrow> world \<Rightarrow> world" where
  "emit e w = w\<lparr>events := events w @ [e]\<rparr>"

definition log :: "level \<Rightarrow> world \<Rightarrow> world" where
  "log l w = emit (Log l) w"

definition os_path_exists :: "world \<Rightarrow> path \<Rightarrow> bool" where
  "os_path_exists w p = (files w p \<noteq> None)"

text \<open>\<^verbatim>\<open>os.path.join(a, b)\<close> on POSIX, for two components.\<close>

definition os_path_join :: "path \<Rightarrow> string \<Rightarrow> path" where
  "os_path_join a b =
     (if b \<noteq> [] \<and> hd b = CHR ''/'' then b
      else if a = [] \<or> last a = CHR ''/'' then a @ b
      else a @ ''/'' @ b)"

section \<open>Container repair: \<open>rebuild_ogg\<close>\<close>

text \<open>A file opened \<^verbatim>\<open>r+b\<close> is its content and a position. \<^verbatim>\<open>seek\<close> moves the position;
  \<^verbatim>\<open>write\<close> overwrites from the position on, extends the file when it runs past the end,
  fills a gap left by a seek beyond the end with zero bytes, and advances the position.\<close>

record ogg_file =
  content :: "byte list"
  pos :: nat

definition write_at :: "byte list \<Rightarrow> nat \<Rightarrow> byte list \<Rightarrow> byte list" where
  "write_at f off bs =
     take off f @ replicate (off - length f) 0 @ bs @ drop (off + length bs) f"

definition ogg_seek :: "nat \<Rightarrow> ogg_file \<Rightarrow> ogg_file" where
  "ogg_seek n h = h\<lparr>pos := n\<rparr>"

definition ogg_write :: "byte list \<Rightarrow> ogg_file \<Rightarrow> ogg_file" where
  "ogg_write bs h = \<lparr>content = write_at (content h) (pos h) bs, pos = pos h + length bs\<rparr>"

definition ogg_s :: "byte list" where
  "ogg_s = [0x4F, 0x67, 0x67, 0x53]"

definition zeroes :: "byte list" where
  "zeroes = replicate 10 0"

definition vorbis_start :: "byte list" where
  "vorbis_start = [0x01, 0x1E, 0x01, 0x76, 0x6F, 0x72, 0x62, 0x69, 0x73]"

definition channels :: "byte list" where
  "channels = [0x02]"

definition sample_rate :: "byte list" where
  "sample_rate = [0x44, 0xAC, 0x00, 0x00]"

definition bit_rate :: "byte list" where
  "bit_rate = [0x00, 0xE2, 0x04, 0x00]"

definition packet_sizes :: "byte list" where
  "packet_sizes = [0xB8, 0x01]"

text \<open>The body of the \<^verbatim>\<open>async with\<close> block: nine seek/write pairs, in the source's order.\<close>

definition rebuild_writes :: "ogg_file \<Rightarrow> ogg_file" where
  "rebuild_writes h0 =
     (let h = ogg_seek 0 h0;  h = ogg_write ogg_s h;
          h = ogg_seek 6 h;   h = ogg_write zeroes h;
          h = ogg_seek 26 h;  h = ogg_write vorbis_start h;
          h = ogg_seek 39 h;  h = ogg_write channels h;
          h = ogg_seek 40 h;  h = ogg_write sample_rate h;
          h = ogg_seek 48 h;  h = ogg_write bit_rate h;
          h = ogg_seek 56 h;  h = ogg_write packet_sizes h;
          h = ogg_seek 58 h;  h = ogg_write ogg_s h;
          h = ogg_seek 62 h;  h = ogg_write zeroes h
      in h)"

definition rebuild_bytes :: "byte list \<Rightarrow> byte list" where
  "rebuild_bytes f = content (rebuild_writes \<lparr>content = f, pos = 0\<rparr>)"

text \<open>The table of the specification, read row by row: \<^verbatim>\<open>OggS\<close> in ASCII, ten zero bytes, the
  Vorbis identification magic, the channel count 2, the sample rate 44100 and the bit rate
  320000 as four little-endian bytes, the segment table marker, and the second page.
  \<open>apply_table\<close> performs the rows as writes, first row first; \<open>patch_at\<close> looks a
  position up in the rows.\<close>

definition ascii :: "string \<Rightarrow> byte list" where
  "ascii s = map (\<lambda>c. of_nat (of_char c)) s"

definition le32 :: "nat \<Rightarrow> byte list" where
  "le32 n = map (\<lambda>k. of_nat (n div 256 ^ k)) [0, 1, 2, 3]"

definition repair_table :: "(nat \<times> byte list) list" where
  "repair_table =
     [(0, ascii ''OggS''), (6, replicate 10 0), (26, vorbis_start), (39, [2]),
      (40, le32 44100), (48, le32 320000), (56, packet_sizes), (58, ascii ''OggS''),
      (62, replicate 10 0)]"

definition apply_table :: "(nat \<times> byte list) list \<Rightarrow> byte list \<Rightarrow> byte list" where
  "apply_table tbl f = foldl (\<lambda>c (off, bs). write_at c off bs) f tbl"

definition covers :: "nat \<Rightarrow> nat \<times> byte list \<Rightarrow> bool" where
  "covers i e = (fst e \<le> i \<and> i < fst e + length (snd e))"

definition patch_at :: "(nat \<times> byte list) list \<Rightarrow> nat \<Rightarrow> byte option" where
  "patch_at tbl i =
     (case find (covers i) tbl of
        None \<Rightarrow> None
      | Some e \<Rightarrow> Some (snd e ! (i - fst e)))"

fun table_end :: "(nat \<times> byte list) list \<Rightarrow> nat" where
  "table_end [] = 0"
| "table_end (e # tbl) = max (fst e + length (snd e)) (table_end tbl)"



section \<open>Python strings and JSON values\<close>

text \<open>Strings are lists of characters; \<^verbatim>\<open>str.lower\<close> is modelled on the ASCII letters, which
  is all that the comparisons of the code (\<^verbatim>\<open>"spotify"\<close>, \<^verbatim>\<open>"playlist"\<close>, \<^verbatim>\<open>".mp3"\<close>,
  \<^verbatim>\<open>".zip"\<close>) can observe.\<close>

definition lower_char :: "char \<Rightarrow> char" where
  "lower_char c =
     (case map_of (zip ''ABCDEFGHIJKLMNOPQRSTUVWXYZ'' ''abcdefghijklmnopqrstuvwxyz'') c of
        Some l \<Rightarrow> l
      | None \<Rightarrow> c)"

definition lower :: "string \<Rightarrow> string" where
  "lower s = map lower_char s"

text \<open>\<^verbatim>\<open>a in b\<close> for two strings: \<open>a\<close> occurs in \<open>b\<close> as a contiguous substring.\<close>

fun str_contains :: "string \<Rightarrow> string \<Rightarrow> bool" where
  "str_contains [] a = (a = [])"
| "str_contains (c # cs) a = (take (length a) (c # cs) = a \<or> str_contains cs a)"

definition endswith :: "string \<Rightarrow> string \<Rightarrow> bool" where
  "endswith s suf = (length suf \<le> length s \<and> drop (length s - length suf) s = suf)"

definition rstrip_slash :: "string \<Rightarrow> string" where
  "rstrip_slash s = rev (dropWhile (\<lambda>c. c = CHR ''/'') (rev s))"

definition lstrip_slash :: "string \<Rightarrow> string" where
  "lstrip_slash s = dropWhile (\<lambda>c. c = CHR ''/'') s"

text \<open>Truthiness of an optional string: \<^verbatim>\<open>None\<close> and \<^verbatim>\<open>""\<close> are false.\<close>

definition truthy_str :: "string option \<Rightarrow> bool" where
  "truthy_str x = (case x of None \<Rightarrow> False | Some s \<Rightarrow> s \<noteq> [])"

text \<open>A decoded JSON value; \<open>JNull\<close> is Python's \<^verbatim>\<open>None\<close>. A dict is an association list
  (looked up with \<open>map_of\<close>); numbers are kept as integers.\<close>

datatype json =
    JNull
  | JBool bool
  | JNum int
  | JStr string
  | JArr "json list"
  | JObj "(string \<times> json) list"

fun truthy :: "json \<Rightarrow> bool" where
  "truthy JNull = False"
| "truthy (JBool b) = b"
| "truthy (JNum n) = (n \<noteq> 0)"
| "truthy (JStr s) = (s \<noteq> [])"
| "truthy (JArr xs) = (xs \<noteq> [])"
| "truthy (JObj kvs) = (kvs \<noteq> [])"

fun is_dict :: "json \<Rightarrow> bool" where
  "is_dict (JObj kvs) = True"
| "is_dict _ = False"

text \<open>\<^verbatim>\<open>k in x\<close>, \<^verbatim>\<open>x[k]\<close> and \<^verbatim>\<open>for v in x\<close> for a string key \<open>k\<close>, with the \<^verbatim>\<open>TypeError\<close>
  and \<^verbatim>\<open>KeyError\<close> that Python raises on the other types.\<close>

fun py_in :: "string \<Rightarrow> json \<Rightarrow> exn + bool" where
  "py_in k (JObj kvs) = Inr (k \<in> set (map fst kvs))"
| "py_in k (JArr xs) = Inr (JStr k \<in> set xs)"
| "py_in k (JStr s) = Inr (str_contains s k)"
| "py_in k _ = Inl TypeError"

fun py_getitem :: "json \<Rightarrow> string \<Rightarrow> exn + json" where
  "py_getitem (JObj kvs) k = (case map_of kvs k of None \<Rightarrow> Inl KeyError | Some v \<Rightarrow> Inr v)"
| "py_getitem _ k = Inl TypeError"

fun py_iter :: "json \<Rightarrow> exn + json list" where
  "py_iter (JArr xs) = Inr xs"
| "py_iter (JStr s) = Inr (map (\<lambda>c. JStr [c]) s)"
| "py_iter (JObj kvs) = Inr (map (\<lambda>kv. JStr (fst kv)) kvs)"
| "py_iter _ = Inl TypeError"

section \<open>Data model and external collaborators\<close>

text \<open>Modelled from the spec: the Track Descriptor (\<^verbatim>\<open>_dataclass.TrackInfo\<close> is not among the
  sources): platform, external id, canonical URL, optional CDN URL, optional hex key and
  the cache-key token \<open>tc\<close>.\<close>

record track_info =
  platform :: string
  url :: string
  id' :: "string option"
  tc :: string
  cdnurl :: "string option"
  key :: "string option"

text \<open>Modelled from the spec: the Download Result of the HTTP client: success flag,
  resulting file path, error message.\<close>

record download_result =
  success :: bool
  file_path :: "path option"
  error :: "string option"

text \<open>Everything the code calls but does not define: configuration, the HTTP client, the AES
  block cipher, the ffmpeg subprocess, the \<^verbatim>\<open>zipfile\<close> reader, the regular-expression matcher
  and the operating system's refusals. \<open>zip_open\<close> gives the members of an archive in archive
  order, each with its name and the outcome of reading its data; \<open>zip_target\<close> is the place
  where \<^verbatim>\<open>ZipFile.extract\<close> writes a member.\<close>

record env =
  API_URL :: "string option"
  API_KEY :: "string option"
  DOWNLOADS_DIR :: string
  url_patterns_match :: "string \<Rightarrow> bool"
  make_request :: "string \<Rightarrow> (string \<times> string) list \<Rightarrow> exn + json"
  download_file :: "string \<Rightarrow> path option \<Rightarrow> fs \<Rightarrow> (exn + download_result) \<times> fs"
  aes_encrypt_block :: "byte list \<Rightarrow> 128 word \<Rightarrow> 128 word"
  run_ffmpeg :: "path \<Rightarrow> path \<Rightarrow> fs \<Rightarrow> (exn + int) \<times> fs"
  open_error :: "path \<Rightarrow> exn option"
  remove_error :: "path \<Rightarrow> exn option"
  zip_open :: "byte list \<Rightarrow> exn + (string \<times> (exn + byte list)) list"
  zip_target :: "path \<Rightarrow> string \<Rightarrow> path"

definition client_request ::
  "env \<Rightarrow> string \<Rightarrow> (string \<times> string) list \<Rightarrow> world \<Rightarrow> (exn + json) \<times> world" where
  "client_request env u params w = (make_request env u params, emit (HttpRequest u params) w)"

definition client_download ::
  "env \<Rightarrow> string \<Rightarrow> path option \<Rightarrow> world \<Rightarrow> (exn + download_result) \<times> world" where
  "client_download env u dest w =
     (case download_file env u dest (files w) of
        (r, fs') \<Rightarrow> (r, emit (HttpDownload u dest) (w\<lparr>files := fs'\<rparr>)))"

text \<open>\<^verbatim>\<open>os.remove\<close>: the file must exist, and the system may refuse.\<close>

definition os_remove :: "env \<Rightarrow> path \<Rightarrow> world \<Rightarrow> exn + world" where
  "os_remove env p w =
     (if files w p = None then Inl FileNotFoundError
      else case remove_error env p of
             Some e \<Rightarrow> Inl e
           | None \<Rightarrow> Inr (w\<lparr>files := (files w)(p := None)\<rparr>))"

text \<open>\<open>rebuild_ogg\<close>: a missing file is logged and left alone; an exception of opening the
  file for \<^verbatim>\<open>r+b\<close> is logged and swallowed; otherwise the file's bytes are rewritten.\<close>

definition rebuild_ogg :: "env \<Rightarrow> path \<Rightarrow> world \<Rightarrow> world" where
  "rebuild_ogg env filename w0 =
     (let w = emit (Step Repair) w0 in
      case files w filename of
        None \<Rightarrow> log ERROR w
      | Some f \<Rightarrow>
          (case open_error env filename of
             Some e \<Rightarrow> log ERROR w
           | None \<Rightarrow> w\<lparr>files := (files w)(filename \<mapsto> rebuild_bytes f)\<rparr>))"

section \<open>Stream decryptor\<close>

text \<open>\<^verbatim>\<open>bytes.fromhex\<close>: two hexadecimal digits per byte, ASCII whitespace skipped between
  bytes, \<^verbatim>\<open>ValueError\<close> on anything else.\<close>

definition is_space :: "char \<Rightarrow> bool" where
  "is_space c = (let n = (of_char c :: nat) in n = 32 \<or> (9 \<le> n \<and> n \<le> 13))"

definition hex_digit :: "char \<Rightarrow> nat option" where
  "hex_digit c =
     (let n = (of_char c :: nat) in
      if 48 \<le> n \<and> n \<le> 57 then Some (n - 48)
      else if 97 \<le> n \<and> n \<le> 102 then Some (n - 87)
      else if 65 \<le> n \<and> n \<le> 70 then Some (n - 55)
      else None)"

fun bytes_fromhex :: "string \<Rightarrow> exn + byte list" where
  "bytes_fromhex [] = Inr []"
| "bytes_fromhex [c] = (if is_space c then Inr [] else Inl ValueError)"
| "bytes_fromhex (c # d # ds) =
     (if is_space c then bytes_fromhex (d # ds)
      else case hex_digit c of
             None \<Rightarrow> Inl ValueError
           | Some hi \<Rightarrow>
               (case hex_digit d of
                  None \<Rightarrow> Inl ValueError
                | Some lo \<Rightarrow>
                    (case bytes_fromhex ds of
                       Inl e \<Rightarrow> Inl e
                     | Inr bs \<Rightarrow> Inr (of_nat (16 * hi + lo) # bs))))"

declare bytes_fromhex.simps [simp del]

text \<open>\<^verbatim>\<open>int.from_bytes(bs, "big")\<close>, read into the 128-bit counter of
  \<^verbatim>\<open>Counter.new(128, initial_value=iv_int)\<close>.\<close>

definition int_from_bytes_big :: "byte list \<Rightarrow> 128 word" where
  "int_from_bytes_big bs = foldl (\<lambda>acc b. push_bit 8 acc OR ucast b) 0 bs"

definition iv_hex :: string where
  "iv_hex = ''72e067fbddcbcf77ebe8bc643f630d93''"

definition iv_int :: "128 word" where
  "iv_int = (case bytes_fromhex iv_hex of Inl e \<Rightarrow> 0 | Inr iv \<Rightarrow> int_from_bytes_big iv)"

text \<open>Counter mode. The cipher object holds how many keystream bytes it has used; byte \<open>p\<close>
  of the keystream is byte \<open>p mod 16\<close> (big-endian) of the block cipher applied to the
  counter \<open>iv_int + p div 16\<close>, the 128-bit counter wrapping around. \<^verbatim>\<open>encrypt\<close> and
  \<^verbatim>\<open>decrypt\<close> are the same XOR with the keystream.\<close>

definition block_byte :: "128 word \<Rightarrow> nat \<Rightarrow> byte" where
  "block_byte blk j = ucast (drop_bit (8 * (15 - j)) blk)"

definition keystream_byte :: "(128 word \<Rightarrow> 128 word) \<Rightarrow> nat \<Rightarrow> byte" where
  "keystream_byte E p = block_byte (E (iv_int + of_nat (p div 16))) (p mod 16)"

definition cipher_decrypt :: "(128 word \<Rightarrow> 128 word) \<Rightarrow> nat \<Rightarrow> byte list \<Rightarrow> byte list" where
  "cipher_decrypt E used chunk =
     map (\<lambda>(j, b). b XOR keystream_byte E (used + j)) (zip [0..<length chunk] chunk)"

definition cipher_encrypt :: "(128 word \<Rightarrow> 128 word) \<Rightarrow> nat \<Rightarrow> byte list \<Rightarrow> byte list" where
  "cipher_encrypt E used chunk = cipher_decrypt E used chunk"

definition chunk_size :: nat where
  "chunk_size = 8192"

text \<open>The \<^verbatim>\<open>while chunk := await fin.read(chunk_size)\<close> loop: \<open>fin\<close> is what is left to read,
  \<open>fout\<close> what has been written, \<open>used\<close> the state of the cipher.\<close>

function decrypt_loop ::
  "(128 word \<Rightarrow> 128 word) \<Rightarrow> nat \<Rightarrow> byte list \<Rightarrow> byte list \<Rightarrow> byte list" where
  "decrypt_loop E used fin fout =
     (let chunk = take chunk_size fin in
      if chunk = [] then fout
      else decrypt_loop E (used + length chunk) (drop chunk_size fin)
             (fout @ cipher_decrypt E used chunk))"
  by pat_completeness auto
termination
  by (relation "measure (\<lambda>(E, used, fin, fout). length fin)") (auto simp: chunk_size_def)

declare decrypt_loop.simps [simp del]

section \<open>\<open>SpotifyDownload\<close>\<close>

definition encrypted_file :: "env \<Rightarrow> track_info \<Rightarrow> path" where
  "encrypted_file env track = os_path_join (DOWNLOADS_DIR env) (tc track @ ''.encrypted.ogg'')"

definition decrypted_file :: "env \<Rightarrow> track_info \<Rightarrow> path" where
  "decrypted_file env track = os_path_join (DOWNLOADS_DIR env) (tc track @ ''.decrypted.ogg'')"

definition output_file :: "env \<Rightarrow> track_info \<Rightarrow> path" where
  "output_file env track = os_path_join (DOWNLOADS_DIR env) (tc track @ ''.ogg'')"

text \<open>The \<^verbatim>\<open>try\<close> block of \<open>decrypt_audio\<close>: decode the key, build the cipher (AES keys have
  16, 24 or 32 bytes), open the source for reading, open (create or truncate) the
  destination, run the loop. The two paths differ, so the source's bytes are those read
  when it was opened.\<close>

definition decrypt_audio_body :: "env \<Rightarrow> track_info \<Rightarrow> world \<Rightarrow> (exn + unit) \<times> world" where
  "decrypt_audio_body env track w =
     (case (case key track of None \<Rightarrow> Inl TypeError | Some k \<Rightarrow> bytes_fromhex k) of
        Inl e \<Rightarrow> (Inl e, w)
      | Inr k \<Rightarrow>
          if length k \<notin> {16, 24, 32} then (Inl ValueError, w)
          else
            (case files w (encrypted_file env track) of
               None \<Rightarrow> (Inl FileNotFoundError, w)
             | Some fin \<Rightarrow>
                 (case open_error env (encrypted_file env track) of
                    Some e \<Rightarrow> (Inl e, w)
                  | None \<Rightarrow>
                      (case open_error env (decrypted_file env track) of
                         Some e \<Rightarrow> (Inl e, w)
                       | None \<Rightarrow>
                           (Inr (),
                            w\<lparr>files := (files w)(decrypted_file env track \<mapsto>
                                 decrypt_loop (aes_encrypt_block env k) 0 fin [])\<rparr>)))))"

text \<open>\<open>decrypt_audio\<close>: every exception of the block is logged and raised again.\<close>

definition decrypt_audio :: "env \<Rightarrow> track_info \<Rightarrow> world \<Rightarrow> (exn + unit) \<times> world" where
  "decrypt_audio env track w0 =
     (case decrypt_audio_body env track (emit (Step Decrypt) w0) of
        (Inl e, w) \<Rightarrow> (Inl e, log ERROR w)
      | (Inr u, w) \<Rightarrow> (Inr u, w))"

text \<open>\<open>fix_audio\<close>: run ffmpeg; a non-zero return code is logged and raised as
  \<^verbatim>\<open>CalledProcessError\<close>; every exception of the block is logged and raised again.\<close>

definition fix_audio_body :: "env \<Rightarrow> track_info \<Rightarrow> world \<Rightarrow> (exn + unit) \<times> world" where
  "fix_audio_body env track w =
     (case run_ffmpeg env (decrypted_file env track) (output_file env track) (files w) of
        (Inl e, fs') \<Rightarrow> (Inl e, w\<lparr>files := fs'\<rparr>)
      | (Inr returncode, fs') \<Rightarrow>
          if returncode \<noteq> 0
          then (Inl (CalledProcessError returncode), log ERROR (w\<lparr>files := fs'\<rparr>))
          else (Inr (), w\<lparr>files := fs'\<rparr>))"

definition fix_audio :: "env \<Rightarrow> track_info \<Rightarrow> world \<Rightarrow> (exn + unit) \<times> world" where
  "fix_audio env track w0 =
     (case fix_audio_body env track (emit (Step Repack) w0) of
        (Inl e, w) \<Rightarrow> (Inl e, log ERROR w)
      | (Inr u, w) \<Rightarrow> (Inr u, w))"

text \<open>\<open>_cleanup\<close>: for each of the two intermediate files, remove it if it exists; an
  exception of the removal is logged as a warning and the loop goes on.\<close>

definition cleanup_file :: "env \<Rightarrow> world \<Rightarrow> path \<Rightarrow> world" where
  "cleanup_file env w file =
     (if os_path_exists w file
      then (case os_remove env file w of Inl e \<Rightarrow> log WARNING w | Inr w' \<Rightarrow> w')
      else w)"

definition cleanup :: "env \<Rightarrow> track_info \<Rightarrow> world \<Rightarrow> world" where
  "cleanup env track w =
     foldl (cleanup_file env) (emit (Step Cleanup) w)
       [encrypted_file env track, decrypted_file env track]"

text \<open>\<open>_extract_zip\<close>: the loop over \<^verbatim>\<open>namelist()\<close>, then the \<^verbatim>\<open>try\<close> block, then the
  handler that turns every exception into the empty list.\<close>

fun extract_loop ::
  "env \<Rightarrow> (string \<times> (exn + byte list)) list \<Rightarrow> path list \<Rightarrow> world \<Rightarrow> (exn + path list) \<times> world"
  where
  "extract_loop env [] extracted_files w = (Inr extracted_files, w)"
| "extract_loop env ((file_name, payload) # rest) extracted_files w =
     (if endswith file_name ''.mp3'' then
        (case payload of
           Inl e \<Rightarrow> (Inl e, w)
         | Inr bytes \<Rightarrow>
             extract_loop env rest
               (extracted_files @ [os_path_join (DOWNLOADS_DIR env) file_name])
               (w\<lparr>files := (files w)(zip_target env (DOWNLOADS_DIR env) file_name \<mapsto> bytes)\<rparr>))
      else extract_loop env rest extracted_files w)"

definition extract_zip_body :: "env \<Rightarrow> path \<Rightarrow> world \<Rightarrow> (exn + path list) \<times> world" where
  "extract_zip_body env zip_path w =
     (case files w zip_path of
        None \<Rightarrow> (Inl FileNotFoundError, w)
      | Some archive \<Rightarrow>
          (case open_error env zip_path of
             Some e \<Rightarrow> (Inl e, w)
           | None \<Rightarrow>
               (case zip_open env archive of
                  Inl e \<Rightarrow> (Inl e, w)
                | Inr members \<Rightarrow>
                    (case extract_loop env members [] w of
                       (Inl e, w1) \<Rightarrow> (Inl e, w1)
                     | (Inr extracted_files, w1) \<Rightarrow>
                         (case os_remove env zip_path w1 of
                            Inl e \<Rightarrow> (Inl e, w1)
                          | Inr w2 \<Rightarrow> (Inr extracted_files, log INFO w2))))))"

definition extract_zip :: "env \<Rightarrow> path \<Rightarrow> world \<Rightarrow> (exn + path list) \<times> world" where
  "extract_zip env zip_path w0 =
     (case extract_zip_body env zip_path (emit (Step Extract) w0) of
        (Inl e, w) \<Rightarrow> (Inr [], log ERROR w)
      | (Inr extracted_files, w) \<Rightarrow> (Inr extracted_files, w))"

text \<open>\<open>process_original\<close>. The \<^verbatim>\<open>try\<close> block first: the result of the download is not
  looked at, only an exception stops the sequence.\<close>

definition process_steps :: "env \<Rightarrow> track_info \<Rightarrow> world \<Rightarrow> (exn + unit) \<times> world" where
  "process_steps env track w =
     (case client_download env (the (cdnurl track)) (Some (encrypted_file env track)) w of
        (Inl e, w1) \<Rightarrow> (Inl e, w1)
      | (Inr r, w1) \<Rightarrow>
          (case decrypt_audio env track w1 of
             (Inl e, w2) \<Rightarrow> (Inl e, w2)
           | (Inr u, w2) \<Rightarrow>
               (case fix_audio env track (rebuild_ogg env (decrypted_file env track) w2) of
                  (Inl e, w3) \<Rightarrow> (Inl e, w3)
                | (Inr u, w3) \<Rightarrow> (Inr (), log INFO (cleanup env track w3)))))"

definition process_original :: "env \<Rightarrow> track_info \<Rightarrow> world \<Rightarrow> (exn + path option) \<times> world" where
  "process_original env track w =
     (if os_path_exists w (output_file env track)
      then (Inr (Some (output_file env track)), log INFO w)
      else if \<not> truthy_str (cdnurl track) \<or> \<not> truthy_str (key track)
      then (Inr None, log WARNING w)
      else case process_steps env track w of
             (Inr u, w') \<Rightarrow> (Inr (Some (output_file env track)), w')
           | (Inl e, w') \<Rightarrow> (Inr None, cleanup env track (log ERROR w')))"


section \<open>\<open>ApiData\<close>\<close>

text \<open>The instance: the sanitized query, and the API URL with its trailing slashes removed
  (\<^verbatim>\<open>config.API_URL.rstrip("/") if config.API_URL else None\<close>).\<close>

record api_data =
  query :: "string option"

definition api_url :: "env \<Rightarrow> string option" where
  "api_url env = (if truthy_str (API_URL env) then map_option rstrip_slash (API_URL env) else None)"

definition api_key :: "env \<Rightarrow> string option" where
  "api_key env = API_KEY env"

text \<open>\<open>is_valid\<close>; the regular expressions of \<^verbatim>\<open>URL_PATTERNS\<close> are matched by the
  collaborator \<open>url_patterns_match\<close>.\<close>

definition is_valid :: "env \<Rightarrow> string option \<Rightarrow> bool" where
  "is_valid env u =
     (if \<not> truthy_str u \<or> \<not> truthy_str (api_url env) \<or> \<not> truthy_str (api_key env) then False
      else url_patterns_match env (the u))"

definition make_api_request ::
  "env \<Rightarrow> string \<Rightarrow> (string \<times> string) list \<Rightarrow> world \<Rightarrow> (exn + json) \<times> world" where
  "make_api_request env endpoint params w =
     (if \<not> truthy_str (api_url env) \<or> \<not> truthy_str (api_key env)
      then (Inr JNull, log ERROR w)
      else client_request env (the (api_url env) @ ''/'' @ lstrip_slash endpoint) params w)"

text \<open>\<open>_parse_tracks_response\<close>. \<open>MusicTrack\<close> is the constructor \<^verbatim>\<open>MusicTrack(**track)\<close>
  of a class that is not among the sources: a parameter, which may raise.\<close>

fun valid_tracks :: "((string \<times> json) list \<Rightarrow> exn + 't) \<Rightarrow> json list \<Rightarrow> exn + 't list" where
  "valid_tracks MusicTrack [] = Inr []"
| "valid_tracks MusicTrack (track # rest) =
     (if truthy track \<and> is_dict track then
        (case track of
           JObj kvs \<Rightarrow>
             (case MusicTrack kvs of
                Inl e \<Rightarrow> Inl e
              | Inr t \<Rightarrow>
                  (case valid_tracks MusicTrack rest of
                     Inl e \<Rightarrow> Inl e
                   | Inr ts \<Rightarrow> Inr (t # ts)))
         | _ \<Rightarrow> Inl TypeError)
      else valid_tracks MusicTrack rest)"

definition parse_tracks_response ::
  "((string \<times> json) list \<Rightarrow> exn + 't) \<Rightarrow> json \<Rightarrow> exn + 't list option" where
  "parse_tracks_response MusicTrack data =
     (if \<not> truthy data \<or> \<not> is_dict data \<or> py_in ''results'' data \<noteq> Inr True then Inr None
      else case py_getitem data ''results'' of
             Inl e \<Rightarrow> Inl e
           | Inr results \<Rightarrow>
               (case py_iter results of
                  Inl e \<Rightarrow> Inl e
                | Inr entries \<Rightarrow>
                    (case valid_tracks MusicTrack entries of
                       Inl e \<Rightarrow> Inl e
                     | Inr ts \<Rightarrow> Inr (if ts \<noteq> [] then Some ts else None))))"

text \<open>A \<^verbatim>\<open>try\<close> block either executes a \<^verbatim>\<open>return\<close> or runs to its end.\<close>

datatype 'a flow = Return 'a | Continue

text \<open>The condition \<^verbatim>\<open>response and "results" in response and response["results"]\<close>, evaluated
  left to right.\<close>

definition has_results :: "json \<Rightarrow> exn + bool" where
  "has_results response =
     (if \<not> truthy response then Inr False
      else case py_in ''results'' response of
             Inl e \<Rightarrow> Inl e
           | Inr False \<Rightarrow> Inr False
           | Inr True \<Rightarrow>
               (case py_getitem response ''results'' of
                  Inl e \<Rightarrow> Inl e
                | Inr r \<Rightarrow> Inr (truthy r)))"

definition new_search_url :: string where
  "new_search_url = ''https://spotify-dl-ss6q.onrender.com/search''"

definition search_try ::
  "((string \<times> json) list \<Rightarrow> exn + 't) \<Rightarrow> env \<Rightarrow> api_data \<Rightarrow> world
     \<Rightarrow> (exn + 't list option flow) \<times> world" where
  "search_try MusicTrack env self w =
     (case client_request env new_search_url [(''q'', the (query self))] w of
        (Inl e, w1) \<Rightarrow> (Inl e, w1)
      | (Inr response, w1) \<Rightarrow>
          (case has_results response of
             Inl e \<Rightarrow> (Inl e, w1)
           | Inr False \<Rightarrow> (Inr Continue, w1)
           | Inr True \<Rightarrow>
               (case parse_tracks_response MusicTrack response of
                  Inl e \<Rightarrow> (Inl e, w1)
                | Inr r \<Rightarrow> (Inr (Return r), w1))))"

text \<open>The tail shared by \<open>search\<close> and \<open>get_info\<close>: the old API, through
  \<open>_make_api_request\<close>.\<close>

definition old_api ::
  "((string \<times> json) list \<Rightarrow> exn + 't) \<Rightarrow> env \<Rightarrow> string \<Rightarrow> (string \<times> string) list \<Rightarrow> world
     \<Rightarrow> (exn + 't list option) \<times> world" where
  "old_api MusicTrack env endpoint params w =
     (case make_api_request env endpoint params w of
        (Inl e, w1) \<Rightarrow> (Inl e, w1)
      | (Inr data, w1) \<Rightarrow>
          (if truthy data then parse_tracks_response MusicTrack data else Inr None, w1))"

definition get_info_try ::
  "((string \<times> json) list \<Rightarrow> exn + 't) \<Rightarrow> env \<Rightarrow> api_data \<Rightarrow> world
     \<Rightarrow> (exn + 't list option flow) \<times> world" where
  "get_info_try MusicTrack env self w =
     (case client_request env
             (''https://spotify-dl-ss6q.onrender.com/search/?q='' @ the (query self)) [] w of
        (Inl e, w1) \<Rightarrow> (Inl e, w1)
      | (Inr data, w1) \<Rightarrow>
          (case (if \<not> truthy data then Inr False else py_in ''results'' data) of
             Inl e \<Rightarrow> (Inl e, w1)
           | Inr False \<Rightarrow> (Inr Continue, w1)
           | Inr True \<Rightarrow>
               (case parse_tracks_response MusicTrack data of
                  Inl e \<Rightarrow> (Inl e, w1)
                | Inr r \<Rightarrow> (Inr (Return r), w1))))"

definition get_info ::
  "((string \<times> json) list \<Rightarrow> exn + 't) \<Rightarrow> env \<Rightarrow> api_data \<Rightarrow> world
     \<Rightarrow> (exn + 't list option) \<times> world" where
  "get_info MusicTrack env self w =
     (if \<not> truthy_str (query self) \<or> \<not> is_valid env (query self) then (Inr None, w)
      else case get_info_try MusicTrack env self w of
             (Inr (Return r), w1) \<Rightarrow> (Inr r, w1)
           | (Inr Continue, w1) \<Rightarrow>
               old_api MusicTrack env ''get_url'' [(''url'', the (query self))] w1
           | (Inl e, w1) \<Rightarrow>
               old_api MusicTrack env ''get_url'' [(''url'', the (query self))] (log WARNING w1))"

definition search ::
  "((string \<times> json) list \<Rightarrow> exn + 't) \<Rightarrow> env \<Rightarrow> api_data \<Rightarrow> world
     \<Rightarrow> (exn + 't list option) \<times> world" where
  "search MusicTrack env self w =
     (if \<not> truthy_str (query self) then (Inr None, w)
      else if is_valid env (query self) then get_info MusicTrack env self w
      else case search_try MusicTrack env self w of
             (Inr (Return r), w1) \<Rightarrow> (Inr r, w1)
           | (Inr Continue, w1) \<Rightarrow>
               old_api MusicTrack env ''search_track'' [(''q'', the (query self))] w1
           | (Inl e, w1) \<Rightarrow>
               old_api MusicTrack env ''search_track'' [(''q'', the (query self))]
                 (log WARNING w1))"


text \<open>\<^verbatim>\<open>Path.suffix\<close>: the final component of the path is what follows the last slash once
  empty and \<^verbatim>\<open>.\<close> components are dropped; its suffix starts at its last dot, unless that
  dot is its first or its last character.\<close>

fun split_on :: "char \<Rightarrow> string \<Rightarrow> string list" where
  "split_on d [] = [[]]"
| "split_on d (c # cs) =
     (if c = d then [] # split_on d cs
      else case split_on d cs of [] \<Rightarrow> [[c]] | x # xs \<Rightarrow> (c # x) # xs)"

definition path_name :: "path \<Rightarrow> string" where
  "path_name p =
     (case filter (\<lambda>part. part \<noteq> [] \<and> part \<noteq> ''.'') (split_on CHR ''/'' p) of
        [] \<Rightarrow> []
      | parts \<Rightarrow> last parts)"

definition path_suffix :: "path \<Rightarrow> string" where
  "path_suffix p =
     (let name = path_name p;
          ext = rev (takeWhile (\<lambda>c. c \<noteq> CHR ''.'') (rev name))
      in if CHR ''.'' \<in> set name \<and> ext \<noteq> [] \<and> length ext + 1 < length name
         then CHR ''.'' # ext else [])"

text \<open>What \<open>download_track\<close> returns: a single path or, for an archive, the list of the
  extracted paths.\<close>

datatype download_value = FilePath path | PathList "path list"

definition download_api :: string where
  "download_api = ''https://spotify-dl-ss6q.onrender.com/download/?url=''"

text \<open>The URL of the primary request: the track's URL for a playlist, else the track URL
  rebuilt from \<^verbatim>\<open>track.id or track.tc\<close>.\<close>

definition spotify_api_url :: "track_info \<Rightarrow> exn + string" where
  "spotify_api_url track =
     (if str_contains (lower (url track)) ''playlist'' then Inr (download_api @ url track)
      else
        (let track_id = (if truthy_str (id' track) then the (id' track) else tc track) in
         if track_id = [] then Inl (Exception ''No track ID available'')
         else Inr (download_api @ ''https://open.spotify.com/track/'' @ track_id)))"

text \<open>The \<^verbatim>\<open>try\<close> block of \<open>download_track\<close>.\<close>

definition download_try ::
  "env \<Rightarrow> track_info \<Rightarrow> world \<Rightarrow> (exn + download_value option) \<times> world" where
  "download_try env track w =
     (if lower (platform track) = ''spotify'' then
        (case spotify_api_url track of
           Inl e \<Rightarrow> (Inl e, w)
         | Inr u \<Rightarrow>
             (case client_download env u None w of
                (Inl e, w1) \<Rightarrow> (Inl e, w1)
              | (Inr result, w1) \<Rightarrow>
                  if success result then
                    (case file_path result of
                       None \<Rightarrow> (Inl AttributeError, w1)
                     | Some fp \<Rightarrow>
                         (let content_type = lower (path_suffix fp) in
                          if content_type = ''.mp3'' then (Inr (Some (FilePath fp)), w1)
                          else if content_type = ''.zip'' then
                            (case extract_zip env fp w1 of
                               (Inl e, w2) \<Rightarrow> (Inl e, w2)
                             | (Inr extracted_files, w2) \<Rightarrow>
                                 (Inr (Some (PathList extracted_files)), w2))
                          else (Inl (Exception (''Invalid content type: '' @ content_type)), w1)))
                  else
                    (Inl (Exception (''API request failed: '' @
                       (case error result of None \<Rightarrow> ''None'' | Some m \<Rightarrow> m))), w1)))
      else if \<not> truthy_str (cdnurl track) then (Inr None, log ERROR w)
      else
        (case client_download env (the (cdnurl track))
                (Some (os_path_join (DOWNLOADS_DIR env) (tc track @ ''.mp3''))) w of
           (Inl e, w1) \<Rightarrow> (Inl e, w1)
         | (Inr result, w1) \<Rightarrow>
             if \<not> success result then (Inr None, log ERROR w1)
             else (Inr (map_option FilePath (file_path result)), w1)))"

text \<open>\<open>download_track\<close>: the handler logs a warning, runs \<open>process_original\<close> for a Spotify
  track, and for any other platform logs an error and returns \<^verbatim>\<open>None\<close>.\<close>

definition download_track ::
  "env \<Rightarrow> track_info option \<Rightarrow> world \<Rightarrow> (exn + download_value option) \<times> world" where
  "download_track env track_opt w =
     (case track_opt of
        None \<Rightarrow> (Inr None, w)
      | Some track \<Rightarrow>
          (case download_try env track w of
             (Inr r, w1) \<Rightarrow> (Inr r, w1)
           | (Inl e, w1) \<Rightarrow>
               if lower (platform track) = ''spotify'' then
                 (case process_original env track (log WARNING w1) of
                    (Inl e', w2) \<Rightarrow> (Inl e', w2)
                  | (Inr p, w2) \<Rightarrow> (Inr (map_option FilePath p), w2))
               else (Inr None, log ERROR (log WARNING w1))))"


section \<open>A sample environment\<close>

text \<open>Concrete collaborators for evaluating the definitions: a configured API that answers
  nothing, a download that fails, the identity as block cipher, an ffmpeg that copies its
  input, and an operating system that refuses nothing.\<close>

definition env0 :: env where
  "env0 =
     \<lparr>API_URL = Some ''https://api.example/'',
      API_KEY = Some ''secret'',
      DOWNLOADS_DIR = ''dl'',
      url_patterns_match = (\<lambda>u. False),
      make_request = (\<lambda>u params. Inr JNull),
      download_file = (\<lambda>u dest fs. (Inl TransportError, fs)),
      aes_encrypt_block = (\<lambda>k c. c),
      run_ffmpeg = (\<lambda>inp out fs. case fs inp of None \<Rightarrow> (Inr 1, fs)
                                    | Some b \<Rightarrow> (Inr 0, fs(out \<mapsto> b))),
      open_error = (\<lambda>p. None),
      remove_error = (\<lambda>p. None),
      zip_open = (\<lambda>archive. Inl BadZipFile),
      zip_target = os_path_join\<rparr>"

definition world0 :: world where
  "world0 = \<lparr>files = Map.empty, events = []\<rparr>"

text \<open>A Spotify track with a 16-byte key and a CDN URL, and the same track on another
  platform.\<close>

definition track0 :: track_info where
  "track0 =
     \<lparr>platform = ''Spotify'',
      url = ''https://open.spotify.com/track/abc'',
      id' = Some ''abc'',
      tc = ''abc'',
      cdnurl = Some ''https://cdn.example/abc'',
      key = Some ''000102030405060708090a0b0c0d0e0f''\<rparr>"

definition key0 :: "byte list" where
  "key0 = [0, 1, 2, 3, 4, 5, 6, 7, 8, 9, 10, 11, 12, 13, 14, 15]"

text \<open>An HTTP client whose download succeeds and stores three bytes at the requested
  destination, on a system that refuses every removal; and a client whose download
  answers with an MP3 file of its own naming.\<close>

definition env_refusing :: env where
  "env_refusing =
     env0\<lparr>download_file :=
            (\<lambda>u dest fs. case dest of
               None \<Rightarrow> (Inl TransportError, fs)
             | Some p \<Rightarrow>
                 (Inr \<lparr>success = True, file_path = Some p, error = None\<rparr>, fs(p \<mapsto> [1, 2, 3]))),
          remove_error := (\<lambda>p. Some OSError)\<rparr>"

definition env_mp3 :: env where
  "env_mp3 =
     env0\<lparr>download_file :=
            (\<lambda>u dest fs.
               (Inr \<lparr>success = True, file_path = Some ''dl/song.mp3'', error = None\<rparr>,
                fs(''dl/song.mp3'' \<mapsto> [])))\<rparr>"

text \<open>What full success of \<open>_extract_zip\<close> leaves in the download directory: every member
  whose name ends with \<^verbatim>\<open>.mp3\<close>, written where \<^verbatim>\<open>ZipFile.extract\<close> puts it, in archive
  order.\<close>

fun extracted_fs :: "env \<Rightarrow> (string \<times> (exn + byte list)) list \<Rightarrow> fs \<Rightarrow> fs" where
  "extracted_fs env [] fs = fs"
| "extracted_fs env ((file_name, payload) # rest) fs =
     (case payload of
        Inr bytes \<Rightarrow>
          if endswith file_name ''.mp3''
          then extracted_fs env rest (fs(zip_target env (DOWNLOADS_DIR env) file_name \<mapsto> bytes))
          else extracted_fs env rest fs
      | Inl e \<Rightarrow> extracted_fs env rest fs)"

definition mp3_paths :: "env \<Rightarrow> (string \<times> (exn + byte list)) list \<Rightarrow> path list" where
  "mp3_paths env members =
     map (os_path_join (DOWNLOADS_DIR env))
       (filter (\<lambda>file_name. endswith file_name ''.mp3'') (map fst members))"

text \<open>A \<^verbatim>\<open>zipfile\<close> reader that finds three members in every archive, and one whose second
  MP3 member cannot be read.\<close>

definition env_zip :: env where
  "env_zip =
     env0\<lparr>zip_open := (\<lambda>archive.
            Inr [(''a.mp3'', Inr [1]), (''notes.txt'', Inr [2]), (''b.mp3'', Inr [3])])\<rparr>"

definition env_badzip :: env where
  "env_badzip =
     env0\<lparr>zip_open := (\<lambda>archive.
            Inr [(''a.mp3'', Inr [1]), (''notes.txt'', Inr [2]), (''b.mp3'', Inl BadZipFile)])\<rparr>"

text \<open>The entries of a results list that are non-empty mappings, in their order: the
  arguments that the response parser gives to \<open>MusicTrack\<close>.\<close>

fun mapping_entries :: "json list \<Rightarrow> (string \<times> json) list list" where
  "mapping_entries [] = []"
| "mapping_entries (JObj kvs # rest) =
     (if kvs \<noteq> [] then kvs # mapping_entries rest else mapping_entries rest)"
| "mapping_entries (other # rest) = mapping_entries rest"

text \<open>A track constructor that accepts exactly the field \<^verbatim>\<open>id\<close> and raises \<^verbatim>\<open>TypeError\<close> on
  any other keyword, as a dataclass does; an environment without API configuration whose
  new search endpoint fails while the old one would answer; and one whose new search
  endpoint answers with an entry that the constructor rejects.\<close>

definition strict_track :: "(string \<times> json) list \<Rightarrow> exn + (string \<times> json) list" where
  "strict_track kvs = (if map fst kvs = [''id''] then Inr kvs else Inl TypeError)"

definition env_noapi :: env where
  "env_noapi =
     env0\<lparr>API_URL := None,
          make_request := (\<lambda>u params.
            if u = new_search_url then Inl TransportError
            else Inr (JObj [(''results'', JArr [JObj [(''id'', JNum 1)]])]))\<rparr>"

definition env_bogus :: env where
  "env_bogus =
     env0\<lparr>make_request := (\<lambda>u params.
            if u = new_search_url then Inr (JObj [(''results'', JArr [JObj [(''bogus'', JNum 1)]])])
            else Inr (JObj [(''results'', JArr [JObj [(''id'', JNum 2)]])]))\<rparr>"

text \<open>A configured environment whose new search endpoint fails while the old one answers with
  one track; and the query used in the examples.\<close>

definition env_fallback :: env where
  "env_fallback = env_noapi\<lparr>API_URL := Some ''https://api.example/''\<rparr>"

definition self0 :: api_data where
  "self0 = \<lparr>query = Some ''song''\<rparr>"

text \<open>The same storing client on a system that refuses no removal.\<close>

definition env_storing :: env where
  "env_storing = env_refusing\<lparr>remove_error := (\<lambda>p. None)\<rparr>"

section \<open>Properties of the container repair\<close>

lemma files_emit [simp]: "files (emit e w) = files w"
  by (simp add: emit_def)

lemma events_emit [simp]: "events (emit e w) = events w @ [e]"
  by (simp add: emit_def)

lemma files_log [simp]: "files (log l w) = files w"
  by (simp add: log_def)

lemma events_log [simp]: "events (log l w) = events w @ [Log l]"
  by (simp add: log_def)

lemma length_write_at: "length (write_at f off bs) = max (length f) (off + length bs)"
  by (auto simp: write_at_def)

lemma nth_write_at:
  "i < max (length f) (off + length bs) \<Longrightarrow>
   write_at f off bs ! i =
     (if off \<le> i \<and> i < off + length bs then bs ! (i - off)
      else if i < length f then f ! i else 0)"
proof -
  have m: "min (length f) off + (off - length f) = off" by arith
  assume "i < max (length f) (off + length bs)"
  then show ?thesis
    by (auto simp: write_at_def nth_append m)
qed

lemma apply_table_Cons:
  "apply_table (e # tbl) f = apply_table tbl (write_at f (fst e) (snd e))"
  by (simp add: apply_table_def split_beta)

lemma length_apply_table: "length (apply_table tbl f) = max (length f) (table_end tbl)"
  by (induction tbl arbitrary: f) (auto simp: apply_table_Cons length_write_at apply_table_def)

lemma find_snoc:
  "find P (xs @ [x]) =
     (case find P xs of Some y \<Rightarrow> Some y | None \<Rightarrow> if P x then Some x else None)"
  by (induction xs) auto


text \<open>Whatever the table, the last row that covers a position decides its byte.\<close>

lemma nth_apply_table:
  "i < max (length f) (table_end tbl) \<Longrightarrow>
   apply_table tbl f ! i =
     (case patch_at (rev tbl) i of Some b \<Rightarrow> b | None \<Rightarrow> if i < length f then f ! i else 0)"
proof (induction tbl arbitrary: f)
  case Nil
  then show ?case by (simp add: apply_table_def patch_at_def)
next
  case (Cons e tbl)
  let ?g = "write_at f (fst e) (snd e)"
  have len: "i < max (length ?g) (table_end tbl)"
    using Cons.prems by (auto simp: length_write_at)
  have "apply_table (e # tbl) f ! i =
      (case patch_at (rev tbl) i of Some b \<Rightarrow> b | None \<Rightarrow> if i < length ?g then ?g ! i else 0)"
    using Cons.IH [OF len] by (simp add: apply_table_Cons)
  also have "\<dots> = (case patch_at (rev (e # tbl)) i of Some b \<Rightarrow> b
                    | None \<Rightarrow> if i < length f then f ! i else 0)"
    by (auto simp: patch_at_def find_snoc covers_def nth_write_at length_write_at
        split: option.splits)
  finally show ?case .
qed

lemma apply_table_idem: "apply_table tbl (apply_table tbl f) = apply_table tbl f"
proof (rule nth_equalityI)
  show "length (apply_table tbl (apply_table tbl f)) = length (apply_table tbl f)"
    by (simp add: length_apply_table)
  fix i assume "i < length (apply_table tbl (apply_table tbl f))"
  then have i: "i < max (length f) (table_end tbl)"
    by (simp add: length_apply_table)
  then have i': "i < max (length (apply_table tbl f)) (table_end tbl)"
    by (simp add: length_apply_table)
  show "apply_table tbl (apply_table tbl f) ! i = apply_table tbl f ! i"
    unfolding nth_apply_table [OF i']
    using i by (simp add: nth_apply_table [OF i] length_apply_table split: option.splits)
qed




lemma table_consts:
  "ascii ''OggS'' = ogg_s" "le32 44100 = sample_rate" "le32 320000 = bit_rate"
  "replicate 10 0 = zeroes" "[2] = channels"
  by (simp_all add: ascii_def ogg_s_def le32_def sample_rate_def bit_rate_def zeroes_def
      channels_def)

lemma rebuild_bytes_table: "rebuild_bytes f = apply_table repair_table f"
  by (simp add: rebuild_bytes_def rebuild_writes_def ogg_seek_def ogg_write_def apply_table_def
      repair_table_def table_consts)



lemma rebuild_bytes_idem: "rebuild_bytes (rebuild_bytes f) = rebuild_bytes f"
  by (simp add: rebuild_bytes_table apply_table_idem)

lemma rebuild_ogg_missing:
  "files w filename = None \<Longrightarrow> rebuild_ogg env filename w = log ERROR (emit (Step Repair) w)"
  by (simp add: rebuild_ogg_def os_path_exists_def Let_def)

lemma rebuild_ogg_present:
  "files w filename = Some f \<Longrightarrow>
   rebuild_ogg env filename w =
     (case open_error env filename of
        Some e \<Rightarrow> log ERROR (emit (Step Repair) w)
      | None \<Rightarrow> (emit (Step Repair) w)\<lparr>files := (files w)(filename \<mapsto> rebuild_bytes f)\<rparr>)"
  by (simp add: rebuild_ogg_def os_path_exists_def Let_def split: option.splits)



text \<open>C7. Container repair is idempotent, on the bytes and on the file system: a second
  \<open>rebuild_ogg\<close> of the same file leaves every file as the first one left it.\<close>

theorem rebuild_ogg_idempotent:
  "rebuild_bytes (rebuild_bytes f) = rebuild_bytes f
   \<and> files (rebuild_ogg env filename (rebuild_ogg env filename w)) =
       files (rebuild_ogg env filename w)"
proof
  show "rebuild_bytes (rebuild_bytes f) = rebuild_bytes f"
    by (rule rebuild_bytes_idem)
  show "files (rebuild_ogg env filename (rebuild_ogg env filename w)) =
      files (rebuild_ogg env filename w)"
  proof (cases "files w filename")
    case None
    then have "files (log ERROR (emit (Step Repair) w)) filename = None" by simp
    then show ?thesis
      using None by (simp add: rebuild_ogg_missing)
  next
    case (Some f)
    show ?thesis
    proof (cases "open_error env filename")
      case None
      let ?w1 = "(emit (Step Repair) w)\<lparr>files := (files w)(filename \<mapsto> rebuild_bytes f)\<rparr>"
      have 1: "rebuild_ogg env filename w = ?w1"
        using Some None by (simp add: rebuild_ogg_present)
      have "files ?w1 filename = Some (rebuild_bytes f)" by simp
      then have "rebuild_ogg env filename ?w1 =
          (emit (Step Repair) ?w1)\<lparr>files := (files ?w1)(filename \<mapsto>
             rebuild_bytes (rebuild_bytes f))\<rparr>"
        using None by (simp add: rebuild_ogg_present)
      then show ?thesis
        by (simp add: 1 rebuild_bytes_idem)
    next
      case (Some e)
      have 1: "rebuild_ogg env filename w = log ERROR (emit (Step Repair) w)"
        using \<open>files w filename = Some f\<close> Some by (simp add: rebuild_ogg_present)
      have "files (log ERROR (emit (Step Repair) w)) filename = Some f"
        using \<open>files w filename = Some f\<close> by simp
      then have "rebuild_ogg env filename (log ERROR (emit (Step Repair) w)) =
          log ERROR (emit (Step Repair) (log ERROR (emit (Step Repair) w)))"
        using Some by (simp add: rebuild_ogg_present)
      then show ?thesis by (simp add: 1)
    qed
  qed
qed

theorem rebuild_ogg_idempotent_witness:
  "rebuild_bytes (rebuild_bytes [1, 2, 3]) = rebuild_bytes [1, 2, 3]
   \<and> files (rebuild_ogg env0 ''f''
        (rebuild_ogg env0 ''f'' (world0\<lparr>files := [''f'' \<mapsto> [1, 2, 3]]\<rparr>))) ''f'' =
      Some (rebuild_bytes [1, 2, 3])"
  using rebuild_ogg_idempotent [of "[1, 2, 3]" env0 "''f''" "world0\<lparr>files := [''f'' \<mapsto> [1, 2, 3]]\<rparr>"]
  by (simp add: rebuild_ogg_present env0_def)

section \<open>Properties of the stream decryptor\<close>

lemma length_cipher_decrypt: "length (cipher_decrypt E used chunk) = length chunk"
  by (simp add: cipher_decrypt_def)

lemma nth_cipher_decrypt:
  "j < length chunk \<Longrightarrow>
   cipher_decrypt E used chunk ! j = chunk ! j XOR keystream_byte E (used + j)"
  by (simp add: cipher_decrypt_def)

lemma cipher_decrypt_append:
  "cipher_decrypt E used (a @ b) =
     cipher_decrypt E used a @ cipher_decrypt E (used + length a) b"
  by (rule nth_equalityI)
     (auto simp: length_cipher_decrypt nth_cipher_decrypt nth_append)

lemma cipher_decrypt_involution:
  "cipher_decrypt E used (cipher_decrypt E used data) = data"
  by (rule nth_equalityI)
     (auto simp: length_cipher_decrypt nth_cipher_decrypt bit.xor_self xor.assoc)

lemma decrypt_loop_eq:
  "decrypt_loop E used fin fout = fout @ cipher_decrypt E used fin"
proof (induction E used fin fout rule: decrypt_loop.induct)
  case (1 E used fin fout)
  show ?case
  proof (cases "take chunk_size fin = []")
    case True
    then have "fin = []" by (simp add: chunk_size_def)
    then show ?thesis
      by (subst decrypt_loop.simps) (simp add: cipher_decrypt_def)
  next
    case False
    have "decrypt_loop E used fin fout =
        decrypt_loop E (used + length (take chunk_size fin)) (drop chunk_size fin)
          (fout @ cipher_decrypt E used (take chunk_size fin))"
      using False by (subst decrypt_loop.simps) (simp add: Let_def)
    also have "\<dots> = (fout @ cipher_decrypt E used (take chunk_size fin)) @
        cipher_decrypt E (used + length (take chunk_size fin)) (drop chunk_size fin)"
      using False by (intro "1.IH") simp_all
    also have "\<dots> = fout @ cipher_decrypt E used (take chunk_size fin @ drop chunk_size fin)"
      by (simp only: cipher_decrypt_append append_assoc)
    finally show ?thesis by simp
  qed
qed

text \<open>The fixed initialization vector decodes, and is this 128-bit number.\<close>

lemma iv_int_value: "iv_int = 0x72e067fbddcbcf77ebe8bc643f630d93"
  by (simp add: iv_int_def iv_hex_def bytes_fromhex.simps hex_digit_def is_space_def
      int_from_bytes_big_def)

text \<open>The encrypted and the decrypted file of a track are never the same path.\<close>

lemma intermediate_files_differ: "encrypted_file env track \<noteq> decrypted_file env track"
proof -
  have "tc track @ ''.encrypted.ogg'' \<noteq> tc track @ ''.decrypted.ogg''" by simp
  moreover have "hd (tc track @ ''.encrypted.ogg'') = hd (tc track @ ''.decrypted.ogg'')"
    by (cases "tc track") simp_all
  ultimately show ?thesis
    by (auto simp: encrypted_file_def decrypted_file_def os_path_join_def)
qed

lemma decrypt_audio_ok:
  assumes "key track = Some key_hex" and "bytes_fromhex key_hex = Inr k"
    and "length k \<in> {16, 24, 32}"
    and "files w (encrypted_file env track) = Some fin"
    and "open_error env (encrypted_file env track) = None"
    and "open_error env (decrypted_file env track) = None"
  shows "decrypt_audio env track w =
      (Inr (), (emit (Step Decrypt) w)\<lparr>files := (files w)(decrypted_file env track \<mapsto>
          decrypt_loop (aes_encrypt_block env k) 0 fin [])\<rparr>)"
  using assms by (simp add: decrypt_audio_def decrypt_audio_body_def)

text \<open>C5. For every encrypted byte sequence (of any length, so also 0, 1, 8191, 8192, 8193
  and 1000000) and every 16-byte key, with the fixed IV: \<open>decrypt_audio\<close> succeeds and writes
  the output of the 8 KiB chunk loop; encrypting that output in counter mode under the same
  key and IV gives back the original bytes; and the output does not depend on where the
  input is cut, since decrypting any two consecutive pieces with the running cipher state
  gives the same bytes.\<close>

theorem decrypt_audio_round_trip:
  assumes "key track = Some key_hex" and "bytes_fromhex key_hex = Inr k" and "length k = 16"
    and "files w (encrypted_file env track) = Some encrypted"
    and "open_error env (encrypted_file env track) = None"
    and "open_error env (decrypted_file env track) = None"
  shows "\<exists>decrypted.
      decrypt_audio env track w =
        (Inr (), (emit (Step Decrypt) w)\<lparr>files :=
           (files w)(decrypted_file env track \<mapsto> decrypted)\<rparr>)
      \<and> decrypted = decrypt_loop (aes_encrypt_block env k) 0 encrypted []
      \<and> length decrypted = length encrypted
      \<and> cipher_encrypt (aes_encrypt_block env k) 0 decrypted = encrypted
      \<and> (\<forall>a b. encrypted = a @ b \<longrightarrow>
            decrypted = cipher_decrypt (aes_encrypt_block env k) 0 a
                        @ cipher_decrypt (aes_encrypt_block env k) (length a) b)"
proof -
  let ?E = "aes_encrypt_block env k"
  let ?d = "decrypt_loop ?E 0 encrypted []"
  have d: "?d = cipher_decrypt ?E 0 encrypted"
    by (simp add: decrypt_loop_eq)
  have "decrypt_audio env track w =
      (Inr (), (emit (Step Decrypt) w)\<lparr>files := (files w)(decrypted_file env track \<mapsto> ?d)\<rparr>)"
    using assms by (intro decrypt_audio_ok) simp_all
  moreover have "length ?d = length encrypted"
    by (simp add: d length_cipher_decrypt)
  moreover have "cipher_encrypt ?E 0 ?d = encrypted"
    by (simp add: d cipher_encrypt_def cipher_decrypt_involution)
  moreover have "\<forall>a b. encrypted = a @ b \<longrightarrow>
      ?d = cipher_decrypt ?E 0 a @ cipher_decrypt ?E (length a) b"
    by (auto simp: decrypt_loop_eq cipher_decrypt_append)
  ultimately show ?thesis by blast
qed

lemma key0_hex: "bytes_fromhex ''000102030405060708090a0b0c0d0e0f'' = Inr key0"
  by (simp add: bytes_fromhex.simps hex_digit_def is_space_def key0_def)

theorem decrypt_audio_round_trip_witness:
  "key track0 = Some ''000102030405060708090a0b0c0d0e0f''
   \<and> bytes_fromhex ''000102030405060708090a0b0c0d0e0f'' = Inr key0
   \<and> length key0 = 16
   \<and> fst (decrypt_audio env0 track0 (world0\<lparr>files := [encrypted_file env0 track0 \<mapsto> [1, 2, 3]]\<rparr>))
       = Inr ()
   \<and> cipher_encrypt (aes_encrypt_block env0 key0) 0
        (decrypt_loop (aes_encrypt_block env0 key0) 0 [1, 2, 3] []) = [1, 2, 3]"
proof -
  let ?w = "world0\<lparr>files := [encrypted_file env0 track0 \<mapsto> [1, 2, 3]]\<rparr>"
  have 1: "key track0 = Some ''000102030405060708090a0b0c0d0e0f''"
    by (simp add: track0_def)
  have 2: "length key0 = 16" by (simp add: key0_def)
  have 3: "files ?w (encrypted_file env0 track0) = Some [1, 2, 3]" by simp
  have 4: "open_error env0 (encrypted_file env0 track0) = None"
    "open_error env0 (decrypted_file env0 track0) = None"
    by (simp_all add: env0_def)
  from decrypt_audio_round_trip [OF 1 key0_hex 2 3 4]
  show ?thesis using 1 2 key0_hex by auto
qed

lemma track0_key: "key track0 = Some ''000102030405060708090a0b0c0d0e0f''"
  by (simp add: track0_def)

lemma length_key0: "length key0 = 16"
  by (simp add: key0_def)

lemma files_world0: "files world0 p = None"
  by (simp add: world0_def)

lemma events_world0: "events world0 = []"
  by (simp add: world0_def)

lemma track0_paths:
  "encrypted_file env0 track0 = ''dl/abc.encrypted.ogg''"
  "decrypted_file env0 track0 = ''dl/abc.decrypted.ogg''"
  "output_file env0 track0 = ''dl/abc.ogg''"
  by (simp_all add: encrypted_file_def decrypted_file_def output_file_def env0_def track0_def
      os_path_join_def)

lemma decrypt_audio_reraises:
  "decrypt_audio_body env track (emit (Step Decrypt) w) = (Inl e, w') \<Longrightarrow>
   decrypt_audio env track w = (Inl e, log ERROR w')"
  by (simp add: decrypt_audio_def)

lemma decrypt_audio_body_missing:
  "files w (encrypted_file env track) = None \<Longrightarrow>
   \<exists>e. decrypt_audio_body env track w = (Inl e, w)"
  by (simp add: decrypt_audio_body_def split: option.splits sum.splits)

text \<open>C2, as the code has it. When the encrypted source file does not exist,
  \<open>decrypt_audio\<close> logs an error and raises, leaving the files as they are: the exception is
  \<^verbatim>\<open>FileNotFoundError\<close> when the key is a valid AES key, and the key's own error otherwise.
  It has no path that returns normally after an exception: every exception of its body is
  logged and raised again.\<close>

theorem decrypt_audio_missing_source_raises:
  "(files w (encrypted_file env track) = None \<longrightarrow>
      (\<exists>e. decrypt_audio env track w = (Inl e, log ERROR (emit (Step Decrypt) w))))
   \<and> (files w (encrypted_file env track) = None \<and> key track = Some key_hex
        \<and> bytes_fromhex key_hex = Inr k \<and> length k \<in> {16, 24, 32} \<longrightarrow>
      decrypt_audio env track w = (Inl FileNotFoundError, log ERROR (emit (Step Decrypt) w)))
   \<and> (\<forall>e w'. decrypt_audio_body env track (emit (Step Decrypt) w) = (Inl e, w') \<longrightarrow>
        decrypt_audio env track w = (Inl e, log ERROR w'))
   \<and> (key track = None \<longrightarrow>
        decrypt_audio env track w = (Inl TypeError, log ERROR (emit (Step Decrypt) w)))
   \<and> (key track = Some key_hex \<and> bytes_fromhex key_hex = Inl e' \<longrightarrow>
        decrypt_audio env track w = (Inl e', log ERROR (emit (Step Decrypt) w)))
   \<and> (key track = Some key_hex \<and> bytes_fromhex key_hex = Inr k \<and> length k \<notin> {16, 24, 32} \<longrightarrow>
        decrypt_audio env track w = (Inl ValueError, log ERROR (emit (Step Decrypt) w)))"
proof (intro conjI impI allI)
  assume "files w (encrypted_file env track) = None"
  then have "files (emit (Step Decrypt) w) (encrypted_file env track) = None" by simp
  from decrypt_audio_body_missing [OF this]
  obtain e where "decrypt_audio_body env track (emit (Step Decrypt) w) =
      (Inl e, emit (Step Decrypt) w)" by blast
  then show "\<exists>e. decrypt_audio env track w = (Inl e, log ERROR (emit (Step Decrypt) w))"
    by (auto dest: decrypt_audio_reraises)
next
  assume "files w (encrypted_file env track) = None \<and> key track = Some key_hex
        \<and> bytes_fromhex key_hex = Inr k \<and> length k \<in> {16, 24, 32}"
  then show "decrypt_audio env track w =
      (Inl FileNotFoundError, log ERROR (emit (Step Decrypt) w))"
    by (simp add: decrypt_audio_def decrypt_audio_body_def)
next
  fix e w'
  assume "decrypt_audio_body env track (emit (Step Decrypt) w) = (Inl e, w')"
  then show "decrypt_audio env track w = (Inl e, log ERROR w')"
    by (rule decrypt_audio_reraises)
next
  assume "key track = None"
  then show "decrypt_audio env track w = (Inl TypeError, log ERROR (emit (Step Decrypt) w))"
    by (simp add: decrypt_audio_def decrypt_audio_body_def)
next
  assume "key track = Some key_hex \<and> bytes_fromhex key_hex = Inl e'"
  then show "decrypt_audio env track w = (Inl e', log ERROR (emit (Step Decrypt) w))"
    by (simp add: decrypt_audio_def decrypt_audio_body_def)
next
  assume "key track = Some key_hex \<and> bytes_fromhex key_hex = Inr k \<and> length k \<notin> {16, 24, 32}"
  then show "decrypt_audio env track w = (Inl ValueError, log ERROR (emit (Step Decrypt) w))"
    by (simp add: decrypt_audio_def decrypt_audio_body_def)
qed

theorem decrypt_audio_missing_source_raises_witness:
  "files (world0\<lparr>files := [''other'' \<mapsto> []]\<rparr>) (encrypted_file env0 track0) = None
   \<and> decrypt_audio env0 track0 (world0\<lparr>files := [''other'' \<mapsto> []]\<rparr>) =
       (Inl FileNotFoundError,
        log ERROR (emit (Step Decrypt) (world0\<lparr>files := [''other'' \<mapsto> []]\<rparr>)))
   \<and> decrypt_audio env0 (track0\<lparr>key := None\<rparr>) world0 =
       (Inl TypeError, log ERROR (emit (Step Decrypt) world0))
   \<and> bytes_fromhex ''zz'' = Inl ValueError
   \<and> decrypt_audio env0 (track0\<lparr>key := Some ''zz''\<rparr>) world0 =
       (Inl ValueError, log ERROR (emit (Step Decrypt) world0))
   \<and> bytes_fromhex ''00'' = Inr [0]
   \<and> decrypt_audio env0 (track0\<lparr>key := Some ''00''\<rparr>) world0 =
       (Inl ValueError, log ERROR (emit (Step Decrypt) world0))"
proof -
  let ?w = "world0\<lparr>files := [''other'' \<mapsto> []]\<rparr>"
  have 1: "files ?w (encrypted_file env0 track0) = None"
    by (simp add: track0_paths)
  have 3: "length key0 \<in> {16, 24, 32}" by (simp add: key0_def)
  from decrypt_audio_missing_source_raises
         [of ?w env0 track0 "''000102030405060708090a0b0c0d0e0f''" key0]
  have a: "decrypt_audio env0 track0 ?w =
      (Inl FileNotFoundError, log ERROR (emit (Step Decrypt) ?w))"
    using 1 track0_key 3 key0_hex by blast
  have "key (track0\<lparr>key := None\<rparr>) = None" by simp
  with decrypt_audio_missing_source_raises [where track = "track0\<lparr>key := None\<rparr>"
      and env = env0 and w = world0]
  have b: "decrypt_audio env0 (track0\<lparr>key := None\<rparr>) world0 =
      (Inl TypeError, log ERROR (emit (Step Decrypt) world0))"
    by blast
  have zz: "bytes_fromhex ''zz'' = Inl ValueError"
    by (simp add: bytes_fromhex.simps hex_digit_def is_space_def)
  have "key (track0\<lparr>key := Some ''zz''\<rparr>) = Some ''zz''" by simp
  with zz decrypt_audio_missing_source_raises [where track = "track0\<lparr>key := Some ''zz''\<rparr>"
      and env = env0 and w = world0 and key_hex = "''zz''" and e' = ValueError]
  have c: "decrypt_audio env0 (track0\<lparr>key := Some ''zz''\<rparr>) world0 =
      (Inl ValueError, log ERROR (emit (Step Decrypt) world0))"
    by blast
  have oo: "bytes_fromhex ''00'' = Inr [0]"
    by (simp add: bytes_fromhex.simps hex_digit_def is_space_def)
  have len: "length [0 :: byte] \<notin> {16, 24, 32}" by simp
  have "key (track0\<lparr>key := Some ''00''\<rparr>) = Some ''00''" by simp
  with oo len decrypt_audio_missing_source_raises [where track = "track0\<lparr>key := Some ''00''\<rparr>"
      and env = env0 and w = world0 and key_hex = "''00''" and k = "[0]"]
  have d: "decrypt_audio env0 (track0\<lparr>key := Some ''00''\<rparr>) world0 =
      (Inl ValueError, log ERROR (emit (Step Decrypt) world0))"
    by blast
  show ?thesis using 1 a b zz c oo d by blast
qed

theorem decrypt_audio_missing_source_counterexample:
  "files world0 (encrypted_file env0 track0) = None
   \<and> fst (decrypt_audio env0 track0 world0) = Inl FileNotFoundError
   \<and> events (snd (decrypt_audio env0 track0 world0)) = [Step Decrypt, Log ERROR]"
proof -
  have "decrypt_audio_body env0 track0 (emit (Step Decrypt) world0) =
      (Inl FileNotFoundError, emit (Step Decrypt) world0)"
    by (simp add: decrypt_audio_body_def track0_key key0_hex length_key0 files_world0)
  then have "decrypt_audio env0 track0 world0 =
      (Inl FileNotFoundError, log ERROR (emit (Step Decrypt) world0))"
    by (simp add: decrypt_audio_def)
  then show ?thesis
    by (simp add: files_world0 events_world0)
qed

section \<open>Properties of the legacy Spotify path\<close>

lemma files_cleanup_file:
  "files (cleanup_file env w file) p =
     (if p = file \<and> files w file \<noteq> None \<and> remove_error env file = None then None
      else files w p)"
  by (simp add: cleanup_file_def os_path_exists_def os_remove_def split: option.splits)

lemma files_cleanup:
  "files (cleanup env track w) p =
     (if (p = encrypted_file env track \<or> p = decrypted_file env track)
         \<and> remove_error env p = None
      then None else files w p)"
  by (auto simp: cleanup_def files_cleanup_file)

lemma process_steps_ends_with_cleanup:
  "process_steps env track w = (Inr u, w') \<Longrightarrow> \<exists>w3. w' = log INFO (cleanup env track w3)"
  by (auto simp: process_steps_def split: prod.splits sum.splits)

lemma process_original_returns: "\<exists>r. fst (process_original env track w) = Inr r"
  by (simp add: process_original_def split: prod.splits sum.splits)

lemma process_original_existing:
  "os_path_exists w (output_file env track) \<Longrightarrow>
   process_original env track w = (Inr (Some (output_file env track)), log INFO w)"
  by (simp add: process_original_def)

lemma process_original_unavailable:
  "\<not> os_path_exists w (output_file env track) \<Longrightarrow>
   \<not> truthy_str (cdnurl track) \<or> \<not> truthy_str (key track) \<Longrightarrow>
   process_original env track w = (Inr None, log WARNING w)"
  by (auto simp: process_original_def)

lemma process_original_pipeline_files:
  assumes "\<not> os_path_exists w (output_file env track)"
    and "truthy_str (cdnurl track)" and "truthy_str (key track)"
    and "p = encrypted_file env track \<or> p = decrypted_file env track"
    and "remove_error env p = None"
  shows "files (snd (process_original env track w)) p = None"
proof (cases "process_steps env track w")
  case (Pair r w')
  show ?thesis
  proof (cases r)
    case (Inl e)
    then have "snd (process_original env track w) = cleanup env track (log ERROR w')"
      using assms(1-3) Pair by (simp add: process_original_def)
    then show ?thesis using assms(4,5) by (simp add: files_cleanup)
  next
    case (Inr u)
    then obtain w3 where w3: "w' = log INFO (cleanup env track w3)"
      using Pair process_steps_ends_with_cleanup by blast
    have "snd (process_original env track w) = w'"
      using assms(1-3) Pair Inr by (simp add: process_original_def)
    then show ?thesis using assms(4,5) w3 by (simp add: files_cleanup)
  qed
qed

lemma events_cleanup_file:
  "events (cleanup_file env w file) =
     events w @ (if files w file \<noteq> None \<and> remove_error env file \<noteq> None then [Log WARNING] else [])"
  by (simp add: cleanup_file_def os_path_exists_def os_remove_def split: option.splits)

text \<open>\<open>_cleanup\<close> adds its step and one warning for every intermediate file that exists and
  whose removal is refused.\<close>

lemma events_cleanup:
  "events (cleanup env track w) =
     events w @ Step Cleanup #
       map (\<lambda>p. Log WARNING)
         (filter (\<lambda>p. files w p \<noteq> None \<and> remove_error env p \<noteq> None)
            [encrypted_file env track, decrypted_file env track])"
proof -
  have ne: "decrypted_file env track \<noteq> encrypted_file env track"
    using intermediate_files_differ [of env track] by simp
  have "files (cleanup_file env (emit (Step Cleanup) w) (encrypted_file env track))
          (decrypted_file env track) = files w (decrypted_file env track)"
    using ne by (simp add: files_cleanup_file)
  then show ?thesis
    by (simp add: cleanup_def events_cleanup_file)
qed

lemma client_download_events:
  "client_download env u dest w = (r, w1) \<Longrightarrow> events w1 = events w @ [HttpDownload u dest]"
  by (auto simp: client_download_def split: prod.splits)

lemma decrypt_audio_events:
  "decrypt_audio env track w = (r, w1) \<Longrightarrow> \<exists>pre. events w1 = events w @ pre"
  by (auto simp: decrypt_audio_def decrypt_audio_body_def
      split: prod.splits sum.splits option.splits if_splits)

lemma rebuild_ogg_events: "\<exists>pre. events (rebuild_ogg env filename w) = events w @ pre"
  by (simp add: rebuild_ogg_def Let_def split: option.splits)

lemma fix_audio_events:
  "fix_audio env track w = (r, w1) \<Longrightarrow> \<exists>pre. events w1 = events w @ pre"
  by (auto simp: fix_audio_def fix_audio_body_def split: prod.splits sum.splits if_splits)

text \<open>Where \<open>process_steps\<close> ends: with an exception, having only added events; or after
  \<open>_cleanup\<close> and a final log record.\<close>

lemma process_steps_events:
  assumes "process_steps env track w = (r, w')"
  shows "(\<forall>e. r = Inl e \<longrightarrow> (\<exists>pre. events w' = events w @ pre))
       \<and> (\<forall>u. r = Inr u \<longrightarrow>
            (\<exists>wc pre. w' = log INFO (cleanup env track wc) \<and> events wc = events w @ pre))"
proof -
  obtain r1 w1 where c: "client_download env (the (cdnurl track))
      (Some (encrypted_file env track)) w = (r1, w1)"
    by (cases "client_download env (the (cdnurl track)) (Some (encrypted_file env track)) w")
  from client_download_events [OF c] obtain p1 where e1: "events w1 = events w @ p1" by blast
  show ?thesis
  proof (cases r1)
    case (Inl e)
    with assms c have "r = Inl e" "w' = w1" by (simp_all add: process_steps_def)
    with e1 show ?thesis by auto
  next
    case r1: (Inr res)
    obtain r2 w2 where d: "decrypt_audio env track w1 = (r2, w2)"
      by (cases "decrypt_audio env track w1")
    from decrypt_audio_events [OF d] obtain p2 where e2: "events w2 = events w1 @ p2" by blast
    show ?thesis
    proof (cases r2)
      case (Inl e)
      with assms c r1 d have "r = Inl e" "w' = w2" by (simp_all add: process_steps_def)
      with e1 e2 show ?thesis by auto
    next
      case r2: (Inr u2)
      let ?w2 = "rebuild_ogg env (decrypted_file env track) w2"
      obtain p3 where e3: "events ?w2 = events w2 @ p3"
        using rebuild_ogg_events by blast
      obtain r3 w3 where f: "fix_audio env track ?w2 = (r3, w3)"
        by (cases "fix_audio env track ?w2")
      from fix_audio_events [OF f] obtain p4 where e4: "events w3 = events ?w2 @ p4" by blast
      have e: "events w3 = events w @ (p1 @ p2 @ p3 @ p4)"
        using e1 e2 e3 e4 by simp
      show ?thesis
      proof (cases r3)
        case (Inl e')
        with assms c r1 d r2 f have "r = Inl e'" "w' = w3" by (simp_all add: process_steps_def)
        with e show ?thesis by auto
      next
        case (Inr u3)
        with assms c r1 d r2 f have "r = Inr ()" "w' = log INFO (cleanup env track w3)"
          by (simp_all add: process_steps_def)
        with e show ?thesis by blast
      qed
    qed
  qed
qed

text \<open>The world in which \<open>_cleanup\<close> is called by a run that enters the pipeline, and how the
  run ends from there.\<close>

lemma process_original_pipeline:
  assumes "\<not> os_path_exists w (output_file env track)"
    and "truthy_str (cdnurl track)" and "truthy_str (key track)"
  shows "\<exists>wc pre. events wc = events w @ pre
      \<and> (process_original env track w =
            (Inr (Some (output_file env track)), log INFO (cleanup env track wc))
          \<or> process_original env track w = (Inr None, cleanup env track wc))"
proof (cases "process_steps env track w")
  case (Pair r w')
  note ev = process_steps_events [OF Pair]
  show ?thesis
  proof (cases r)
    case (Inl e)
    with ev obtain pre where pre: "events w' = events w @ pre" by blast
    have "process_original env track w = (Inr None, cleanup env track (log ERROR w'))"
      using assms Pair Inl by (simp add: process_original_def)
    moreover have "events (log ERROR w') = events w @ (pre @ [Log ERROR])"
      using pre by simp
    ultimately show ?thesis by blast
  next
    case (Inr u)
    with ev obtain wc pre where wc: "w' = log INFO (cleanup env track wc)"
      "events wc = events w @ pre" by blast
    have "process_original env track w = (Inr (Some (output_file env track)), w')"
      using assms Pair Inr by (simp add: process_original_def)
    with wc show ?thesis by blast
  qed
qed

text \<open>C3, as the code has it. \<open>process_original\<close> never raises. Every run that enters the
  pipeline (the final output is absent and both the CDN URL and the key are present) calls
  \<open>_cleanup\<close> before it returns, on success and on failure: its final world is that of
  \<open>_cleanup\<close> (followed on success by one log record), the cleanup step is among the events
  of the run, each of the two intermediate files is absent afterwards unless the system
  refused its removal, in which case the file is as it was, and the run logs one warning
  for every intermediate file that existed and whose removal was refused. The two early
  returns (the output exists; the CDN URL or the key is missing) add one log record and
  nothing else: they do not run the cleanup and leave all files as they were.\<close>

theorem process_original_cleanup:
  "(\<exists>r. fst (process_original env track w) = Inr r)
   \<and> (\<not> os_path_exists w (output_file env track)
        \<and> truthy_str (cdnurl track) \<and> truthy_str (key track) \<longrightarrow>
      (\<forall>p \<in> {encrypted_file env track, decrypted_file env track}.
          remove_error env p = None \<longrightarrow>
          files (snd (process_original env track w)) p = None))
   \<and> (os_path_exists w (output_file env track)
        \<or> \<not> truthy_str (cdnurl track) \<or> \<not> truthy_str (key track) \<longrightarrow>
      files (snd (process_original env track w)) = files w)
   \<and> (\<not> os_path_exists w (output_file env track)
        \<and> truthy_str (cdnurl track) \<and> truthy_str (key track) \<longrightarrow>
      (\<exists>wc pre.
          events wc = events w @ pre
          \<and> (process_original env track w =
                (Inr (Some (output_file env track)), log INFO (cleanup env track wc))
              \<or> process_original env track w = (Inr None, cleanup env track wc))
          \<and> events (snd (process_original env track w)) =
              events w @ pre @ Step Cleanup #
                map (\<lambda>p. Log WARNING)
                  (filter (\<lambda>p. files wc p \<noteq> None \<and> remove_error env p \<noteq> None)
                     [encrypted_file env track, decrypted_file env track])
                @ (if fst (process_original env track w) = Inr None then [] else [Log INFO])
          \<and> (\<forall>p \<in> {encrypted_file env track, decrypted_file env track}.
                files (snd (process_original env track w)) p =
                  (if remove_error env p = None then None else files wc p)))
      \<and> Step Cleanup \<in> set (drop (length (events w))
                               (events (snd (process_original env track w)))))
   \<and> (os_path_exists w (output_file env track) \<longrightarrow>
        process_original env track w = (Inr (Some (output_file env track)), log INFO w))
   \<and> (\<not> os_path_exists w (output_file env track)
        \<and> (\<not> truthy_str (cdnurl track) \<or> \<not> truthy_str (key track)) \<longrightarrow>
        process_original env track w = (Inr None, log WARNING w))
   \<and> (os_path_exists w (output_file env track)
        \<or> \<not> truthy_str (cdnurl track) \<or> \<not> truthy_str (key track) \<longrightarrow>
      Step Cleanup \<notin> set (drop (length (events w))
                               (events (snd (process_original env track w)))))"
proof (intro conjI impI ballI)
  show "\<exists>r. fst (process_original env track w) = Inr r"
    by (rule process_original_returns)
next
  fix p
  assume "\<not> os_path_exists w (output_file env track)
        \<and> truthy_str (cdnurl track) \<and> truthy_str (key track)"
    and "p \<in> {encrypted_file env track, decrypted_file env track}"
    and "remove_error env p = None"
  then show "files (snd (process_original env track w)) p = None"
    by (intro process_original_pipeline_files) auto
next
  assume a: "os_path_exists w (output_file env track)
        \<or> \<not> truthy_str (cdnurl track) \<or> \<not> truthy_str (key track)"
  show "files (snd (process_original env track w)) = files w"
  proof (cases "os_path_exists w (output_file env track)")
    case True
    then show ?thesis by (simp add: process_original_existing)
  next
    case False
    with a show ?thesis by (simp add: process_original_unavailable)
  qed
  show "Step Cleanup \<notin> set (drop (length (events w))
      (events (snd (process_original env track w))))"
  proof (cases "os_path_exists w (output_file env track)")
    case True
    then show ?thesis by (simp add: process_original_existing)
  next
    case False
    with a show ?thesis by (simp add: process_original_unavailable)
  qed
next
  assume "os_path_exists w (output_file env track)"
  then show "process_original env track w = (Inr (Some (output_file env track)), log INFO w)"
    by (rule process_original_existing)
next
  assume "\<not> os_path_exists w (output_file env track)
        \<and> (\<not> truthy_str (cdnurl track) \<or> \<not> truthy_str (key track))"
  then show "process_original env track w = (Inr None, log WARNING w)"
    by (simp add: process_original_unavailable)
next
  assume a: "\<not> os_path_exists w (output_file env track)
        \<and> truthy_str (cdnurl track) \<and> truthy_str (key track)"
  then obtain wc pre where wc: "events wc = events w @ pre"
    and run: "process_original env track w =
        (Inr (Some (output_file env track)), log INFO (cleanup env track wc))
      \<or> process_original env track w = (Inr None, cleanup env track wc)"
    using process_original_pipeline [of w env track] by blast
  let ?warn = "map (\<lambda>p. Log WARNING)
      (filter (\<lambda>p. files wc p \<noteq> None \<and> remove_error env p \<noteq> None)
         [encrypted_file env track, decrypted_file env track])"
  have ev: "events (snd (process_original env track w)) =
      events w @ pre @ Step Cleanup # ?warn
        @ (if fst (process_original env track w) = Inr None then [] else [Log INFO])"
    using run wc by (auto simp: events_cleanup)
  have fl: "\<forall>p \<in> {encrypted_file env track, decrypted_file env track}.
      files (snd (process_original env track w)) p =
        (if remove_error env p = None then None else files wc p)"
    using run by (auto simp: files_cleanup)
  from wc run ev fl
  show "\<exists>wc pre.
      events wc = events w @ pre
      \<and> (process_original env track w =
            (Inr (Some (output_file env track)), log INFO (cleanup env track wc))
          \<or> process_original env track w = (Inr None, cleanup env track wc))
      \<and> events (snd (process_original env track w)) =
          events w @ pre @ Step Cleanup #
            map (\<lambda>p. Log WARNING)
              (filter (\<lambda>p. files wc p \<noteq> None \<and> remove_error env p \<noteq> None)
                 [encrypted_file env track, decrypted_file env track])
            @ (if fst (process_original env track w) = Inr None then [] else [Log INFO])
      \<and> (\<forall>p \<in> {encrypted_file env track, decrypted_file env track}.
            files (snd (process_original env track w)) p =
              (if remove_error env p = None then None else files wc p))"
    by blast
  from ev show "Step Cleanup \<in> set (drop (length (events w))
      (events (snd (process_original env track w))))"
    by simp
qed

lemma track0_truthy: "truthy_str (cdnurl track0)" "truthy_str (key track0)"
  by (simp_all add: track0_def truthy_str_def)

text \<open>A full run of the pipeline with a client that stores the download: when \<open>_cleanup\<close> is
  called, both intermediate files exist.\<close>

lemma storing_run:
  assumes df: "download_file e = download_file env_refusing"
    and ff: "run_ffmpeg e = run_ffmpeg env0"
    and oe: "open_error e = (\<lambda>p. None)"
    and dir: "DOWNLOADS_DIR e = ''dl''"
  shows "\<exists>wc. process_original e track0 world0 =
        (Inr (Some ''dl/abc.ogg''), log INFO (cleanup e track0 wc))
      \<and> files wc ''dl/abc.encrypted.ogg'' = Some [1, 2, 3]
      \<and> files wc ''dl/abc.decrypted.ogg'' \<noteq> None
      \<and> events wc =
          [HttpDownload ''https://cdn.example/abc'' (Some ''dl/abc.encrypted.ogg''),
           Step Decrypt, Step Repair, Step Repack]"
proof -
  have paths: "encrypted_file e track0 = ''dl/abc.encrypted.ogg''"
    "decrypted_file e track0 = ''dl/abc.decrypted.ogg''"
    "output_file e track0 = ''dl/abc.ogg''"
    by (simp_all add: encrypted_file_def decrypted_file_def output_file_def dir track0_def
        os_path_join_def)
  define w1 where "w1 = emit (HttpDownload ''https://cdn.example/abc'' (Some ''dl/abc.encrypted.ogg''))
      (world0\<lparr>files := [''dl/abc.encrypted.ogg'' \<mapsto> [1, 2, 3]]\<rparr>)"
  have dfe: "download_file e u (Some p) fs =
      (Inr \<lparr>success = True, file_path = Some p, error = None\<rparr>, fs(p \<mapsto> [1, 2, 3]))" for u p fs
    by (simp add: df env_refusing_def)
  have ffe: "run_ffmpeg e inp out fs =
      (case fs inp of None \<Rightarrow> (Inr 1, fs) | Some b \<Rightarrow> (Inr 0, fs(out \<mapsto> b)))" for inp out fs
    by (simp add: ff env0_def)
  have cdn: "the (cdnurl track0) = ''https://cdn.example/abc''"
    by (simp add: track0_def)
  have d: "client_download e (the (cdnurl track0)) (Some (encrypted_file e track0)) world0 =
      (Inr \<lparr>success = True, file_path = Some ''dl/abc.encrypted.ogg'', error = None\<rparr>, w1)"
    by (simp add: client_download_def paths w1_def dfe cdn world0_def)
  have f1: "files w1 (encrypted_file e track0) = Some [1, 2, 3]"
    by (simp add: w1_def paths)
  define dec where "dec = decrypt_loop (aes_encrypt_block e key0) 0 [1, 2, 3] []"
  define w2 where "w2 = (emit (Step Decrypt) w1)\<lparr>files := (files w1)(''dl/abc.decrypted.ogg'' \<mapsto> dec)\<rparr>"
  have da: "decrypt_audio e track0 w1 = (Inr (), w2)"
    using f1 by (simp add: decrypt_audio_def decrypt_audio_body_def track0_key key0_hex
        length_key0 oe paths w2_def dec_def)
  define w3 where "w3 = (emit (Step Repair) w2)\<lparr>files := (files w2)(''dl/abc.decrypted.ogg'' \<mapsto> rebuild_bytes dec)\<rparr>"
  have rb: "rebuild_ogg e (decrypted_file e track0) w2 = w3"
    by (simp add: rebuild_ogg_present [where f = dec] w2_def w3_def paths oe)
  define w4 where "w4 = (emit (Step Repack) w3)\<lparr>files := (files w3)(''dl/abc.ogg'' \<mapsto> rebuild_bytes dec)\<rparr>"
  have fa: "fix_audio e track0 w3 = (Inr (), w4)"
    by (simp add: fix_audio_def fix_audio_body_def paths w3_def w4_def ffe)
  have f4: "files w4 ''dl/abc.encrypted.ogg'' = Some [1, 2, 3]"
    "files w4 ''dl/abc.decrypted.ogg'' \<noteq> None"
    by (simp_all add: w4_def w3_def w2_def w1_def)
  have e4: "events w4 =
      [HttpDownload ''https://cdn.example/abc'' (Some ''dl/abc.encrypted.ogg''),
       Step Decrypt, Step Repair, Step Repack]"
    by (simp add: w4_def w3_def w2_def w1_def events_world0)
  have ps: "process_steps e track0 world0 = (Inr (), log INFO (cleanup e track0 w4))"
    by (simp add: process_steps_def d da rb fa)
  have "process_original e track0 world0 =
      (Inr (Some ''dl/abc.ogg''), log INFO (cleanup e track0 w4))"
    by (simp add: process_original_def os_path_exists_def files_world0 track0_truthy ps paths)
  with f4 e4 show ?thesis by blast
qed

theorem process_original_cleanup_witness:
  "\<not> os_path_exists world0 (output_file env_storing track0)
   \<and> truthy_str (cdnurl track0) \<and> truthy_str (key track0)
   \<and> encrypted_file env_storing track0 = ''dl/abc.encrypted.ogg''
   \<and> decrypted_file env_storing track0 = ''dl/abc.decrypted.ogg''
   \<and> (\<exists>wc. process_original env_storing track0 world0 =
         (Inr (Some ''dl/abc.ogg''), log INFO (cleanup env_storing track0 wc))
       \<and> files wc ''dl/abc.encrypted.ogg'' = Some [1, 2, 3]
       \<and> files wc ''dl/abc.decrypted.ogg'' \<noteq> None)
   \<and> files (snd (process_original env_storing track0 world0)) ''dl/abc.encrypted.ogg'' = None
   \<and> files (snd (process_original env_storing track0 world0)) ''dl/abc.decrypted.ogg'' = None
   \<and> Step Cleanup \<in> set (events (snd (process_original env_storing track0 world0)))
   \<and> events (snd (process_original env_storing track0 world0)) =
       [HttpDownload ''https://cdn.example/abc'' (Some ''dl/abc.encrypted.ogg''),
        Step Decrypt, Step Repair, Step Repack, Step Cleanup, Log INFO]
   \<and> (\<exists>pre. events (snd (process_original env_refusing track0 world0)) =
         pre @ [Step Cleanup, Log WARNING, Log WARNING, Log INFO])
   \<and> files (snd (process_original env_refusing track0 world0)) ''dl/abc.encrypted.ogg''
       = Some [1, 2, 3]
   \<and> process_original env0 track0 (world0\<lparr>files := [''dl/abc.ogg'' \<mapsto> [7]]\<rparr>) =
       (Inr (Some ''dl/abc.ogg''), log INFO (world0\<lparr>files := [''dl/abc.ogg'' \<mapsto> [7]]\<rparr>))
   \<and> Step Cleanup \<notin> set (events (snd (process_original env0 track0
         (world0\<lparr>files := [''dl/abc.ogg'' \<mapsto> [7]]\<rparr>))))"
proof -
  let ?s = env_storing and ?r = env_refusing
  let ?enc = "''dl/abc.encrypted.ogg''" and ?dec = "''dl/abc.decrypted.ogg''"
  have sel_s: "download_file ?s = download_file env_refusing" "run_ffmpeg ?s = run_ffmpeg env0"
    "open_error ?s = (\<lambda>p. None)" "DOWNLOADS_DIR ?s = ''dl''" "remove_error ?s = (\<lambda>p. None)"
    by (simp_all add: env_storing_def env_refusing_def env0_def)
  have sel_r: "download_file ?r = download_file env_refusing" "run_ffmpeg ?r = run_ffmpeg env0"
    "open_error ?r = (\<lambda>p. None)" "DOWNLOADS_DIR ?r = ''dl''"
    "remove_error ?r = (\<lambda>p. Some OSError)"
    by (simp_all add: env_refusing_def env0_def)
  have paths_s: "encrypted_file ?s track0 = ?enc" "decrypted_file ?s track0 = ?dec"
    "output_file ?s track0 = ''dl/abc.ogg''"
    by (simp_all add: encrypted_file_def decrypted_file_def output_file_def sel_s track0_def
        os_path_join_def)
  have paths_r: "encrypted_file ?r track0 = ?enc" "decrypted_file ?r track0 = ?dec"
    "output_file ?r track0 = ''dl/abc.ogg''"
    by (simp_all add: encrypted_file_def decrypted_file_def output_file_def sel_r track0_def
        os_path_join_def)
  have hyp_s: "\<not> os_path_exists world0 (output_file ?s track0)
      \<and> truthy_str (cdnurl track0) \<and> truthy_str (key track0)"
    by (simp add: os_path_exists_def files_world0 track0_truthy)
  have hyp_r: "\<not> os_path_exists world0 (output_file ?r track0)
      \<and> truthy_str (cdnurl track0) \<and> truthy_str (key track0)"
    by (simp add: os_path_exists_def files_world0 track0_truthy)
  note ts = process_original_cleanup [of ?s track0 world0]
  note tr = process_original_cleanup [of ?r track0 world0]
  \<comment> \<open>the storing run: both intermediates exist at the cleanup and are gone after it\<close>
  from storing_run [OF sel_s(1-4)] obtain wc where run_s:
    "process_original ?s track0 world0 = (Inr (Some ''dl/abc.ogg''), log INFO (cleanup ?s track0 wc))"
    "files wc ?enc = Some [1, 2, 3]" "files wc ?dec \<noteq> None"
    "events wc = [HttpDownload ''https://cdn.example/abc'' (Some ?enc),
                  Step Decrypt, Step Repair, Step Repack]"
    by blast
  have gone: "files (snd (process_original ?s track0 world0)) ?enc = None"
    "files (snd (process_original ?s track0 world0)) ?dec = None"
    using ts [THEN conjunct2, THEN conjunct1, THEN mp, OF hyp_s]
    by (simp_all add: paths_s sel_s)
  have "Step Cleanup \<in> set (drop (length (events world0))
      (events (snd (process_original ?s track0 world0))))"
    using ts [THEN conjunct2, THEN conjunct2, THEN conjunct2, THEN conjunct1, THEN mp,
      OF hyp_s, THEN conjunct2] .
  then have ran: "Step Cleanup \<in> set (events (snd (process_original ?s track0 world0)))"
    by (simp add: events_world0)
  have ev_s: "events (snd (process_original ?s track0 world0)) =
      [HttpDownload ''https://cdn.example/abc'' (Some ?enc),
       Step Decrypt, Step Repair, Step Repack, Step Cleanup, Log INFO]"
    by (simp add: run_s events_cleanup sel_s)
  \<comment> \<open>the refusing run: one warning for each of the two files\<close>
  from storing_run [OF sel_r(1-4)] obtain wr where run_r:
    "process_original ?r track0 world0 = (Inr (Some ''dl/abc.ogg''), log INFO (cleanup ?r track0 wr))"
    "files wr ?enc = Some [1, 2, 3]" "files wr ?dec \<noteq> None"
    by blast
  have kept: "files (snd (process_original ?r track0 world0)) ?enc = Some [1, 2, 3]"
    "files (snd (process_original ?r track0 world0)) ?dec \<noteq> None"
    by (simp_all add: run_r files_cleanup sel_r)
  note tr4 = tr [THEN conjunct2, THEN conjunct2, THEN conjunct2, THEN conjunct1, THEN mp,
      OF hyp_r, THEN conjunct1]
  have warn: "\<exists>pre. events (snd (process_original ?r track0 world0)) =
      pre @ [Step Cleanup, Log WARNING, Log WARNING, Log INFO]"
    using tr4
  proof (elim exE conjE)
    fix wc pre
    assume r1: "events (snd (process_original ?r track0 world0)) =
       events world0 @ pre @ Step Cleanup #
         map (\<lambda>p. Log WARNING)
           (filter (\<lambda>p. files wc p \<noteq> None \<and> remove_error ?r p \<noteq> None)
              [encrypted_file ?r track0, decrypted_file ?r track0])
         @ (if fst (process_original ?r track0 world0) = Inr None then [] else [Log INFO])"
      and r2: "\<forall>p \<in> {encrypted_file ?r track0, decrypted_file ?r track0}.
       files (snd (process_original ?r track0 world0)) p =
         (if remove_error ?r p = None then None else files wc p)"
    from r2 have same: "files (snd (process_original ?r track0 world0)) ?enc = files wc ?enc"
      "files (snd (process_original ?r track0 world0)) ?dec = files wc ?dec"
      by (simp_all add: paths_r sel_r)
    from kept have ex: "files wc ?enc \<noteq> None" "files wc ?dec \<noteq> None"
      unfolding same by simp_all
    have "events (snd (process_original ?r track0 world0)) =
        pre @ [Step Cleanup, Log WARNING, Log WARNING, Log INFO]"
      using r1 ex by (simp add: paths_r sel_r events_world0 run_r)
    then show ?thesis by blast
  qed
  \<comment> \<open>an early return\<close>
  let ?w = "world0\<lparr>files := [''dl/abc.ogg'' \<mapsto> [7]]\<rparr>"
  have ex_out: "os_path_exists ?w (output_file env0 track0)"
    by (simp add: os_path_exists_def track0_paths)
  note te = process_original_cleanup [of env0 track0 ?w]
  from te [THEN conjunct2, THEN conjunct2, THEN conjunct2, THEN conjunct2, THEN conjunct1,
      THEN mp, OF ex_out]
  have early: "process_original env0 track0 ?w = (Inr (Some ''dl/abc.ogg''), log INFO ?w)"
    by (simp add: track0_paths)
  from te [THEN conjunct2, THEN conjunct2, THEN conjunct2, THEN conjunct2, THEN conjunct2,
      THEN conjunct2] ex_out
  have "Step Cleanup \<notin> set (drop (length (events ?w))
      (events (snd (process_original env0 track0 ?w))))"
    by blast
  then have norun: "Step Cleanup \<notin> set (events (snd (process_original env0 track0 ?w)))"
    by (simp add: events_world0)
  from run_s have runs: "\<exists>wc. process_original ?s track0 world0 =
         (Inr (Some ''dl/abc.ogg''), log INFO (cleanup ?s track0 wc))
       \<and> files wc ?enc = Some [1, 2, 3] \<and> files wc ?dec \<noteq> None"
    by blast
  show ?thesis
    using hyp_s paths_s(1,2) runs gone ran ev_s warn kept(1) early norun by blast
qed

lemma process_original_stale_intermediate:
  "fst (process_original env0 (track0\<lparr>key := None\<rparr>)
          (world0\<lparr>files := [''dl/abc.encrypted.ogg'' \<mapsto> [1]]\<rparr>)) = Inr None
   \<and> encrypted_file env0 (track0\<lparr>key := None\<rparr>) = ''dl/abc.encrypted.ogg''
   \<and> files (snd (process_original env0 (track0\<lparr>key := None\<rparr>)
          (world0\<lparr>files := [''dl/abc.encrypted.ogg'' \<mapsto> [1]]\<rparr>))) ''dl/abc.encrypted.ogg''
       = Some [1]"
proof -
  let ?t = "track0\<lparr>key := None\<rparr>"
  let ?w = "world0\<lparr>files := [''dl/abc.encrypted.ogg'' \<mapsto> [1]]\<rparr>"
  have out: "output_file env0 ?t = ''dl/abc.ogg''"
    by (simp add: output_file_def env0_def track0_def os_path_join_def)
  have enc: "encrypted_file env0 ?t = ''dl/abc.encrypted.ogg''"
    by (simp add: encrypted_file_def env0_def track0_def os_path_join_def)
  have "\<not> os_path_exists ?w (output_file env0 ?t)"
    by (simp add: os_path_exists_def out)
  moreover have "\<not> truthy_str (key ?t)"
    by (simp add: truthy_str_def)
  ultimately have "process_original env0 ?t ?w = (Inr None, log WARNING ?w)"
    by (simp add: process_original_def)
  then show ?thesis using enc by simp
qed

lemma process_original_refused_removal:
  "fst (process_original env_refusing track0 world0) = Inr (Some ''dl/abc.ogg'')
   \<and> files (snd (process_original env_refusing track0 world0)) ''dl/abc.encrypted.ogg''
       = Some [1, 2, 3]"
proof -
  let ?e = env_refusing
  have paths: "encrypted_file ?e track0 = ''dl/abc.encrypted.ogg''"
    "decrypted_file ?e track0 = ''dl/abc.decrypted.ogg''"
    "output_file ?e track0 = ''dl/abc.ogg''"
    by (simp_all add: encrypted_file_def decrypted_file_def output_file_def env_refusing_def
        env0_def track0_def os_path_join_def)
  have oe: "open_error ?e p = None" for p
    by (simp add: env_refusing_def env0_def)
  define w1 where "w1 = emit (HttpDownload ''https://cdn.example/abc'' (Some ''dl/abc.encrypted.ogg''))
      (world0\<lparr>files := [''dl/abc.encrypted.ogg'' \<mapsto> [1, 2, 3]]\<rparr>)"
  have df: "download_file ?e u (Some p) fs =
      (Inr \<lparr>success = True, file_path = Some p, error = None\<rparr>, fs(p \<mapsto> [1, 2, 3]))" for u p fs
    by (simp add: env_refusing_def)
  have ff: "run_ffmpeg ?e inp out fs =
      (case fs inp of None \<Rightarrow> (Inr 1, fs) | Some b \<Rightarrow> (Inr 0, fs(out \<mapsto> b)))" for inp out fs
    by (simp add: env_refusing_def env0_def)
  have cdn: "the (cdnurl track0) = ''https://cdn.example/abc''"
    by (simp add: track0_def)
  have d: "client_download ?e (the (cdnurl track0)) (Some (encrypted_file ?e track0)) world0 =
      (Inr \<lparr>success = True, file_path = Some ''dl/abc.encrypted.ogg'', error = None\<rparr>, w1)"
    by (simp add: client_download_def paths w1_def df cdn world0_def)
  have f1: "files w1 (encrypted_file ?e track0) = Some [1, 2, 3]"
    by (simp add: w1_def paths)
  define dec where "dec = decrypt_loop (aes_encrypt_block ?e key0) 0 [1, 2, 3] []"
  define w2 where "w2 = (emit (Step Decrypt) w1)\<lparr>files := (files w1)(''dl/abc.decrypted.ogg'' \<mapsto> dec)\<rparr>"
  have da: "decrypt_audio ?e track0 w1 = (Inr (), w2)"
    using f1 by (simp add: decrypt_audio_def decrypt_audio_body_def track0_key key0_hex
        length_key0 oe paths w2_def dec_def)
  define w3 where "w3 = (emit (Step Repair) w2)\<lparr>files := (files w2)(''dl/abc.decrypted.ogg'' \<mapsto> rebuild_bytes dec)\<rparr>"
  have rb: "rebuild_ogg ?e (decrypted_file ?e track0) w2 = w3"
    by (simp add: rebuild_ogg_present [where f = dec] w2_def w3_def paths oe)
  define w4 where "w4 = (emit (Step Repack) w3)\<lparr>files := (files w3)(''dl/abc.ogg'' \<mapsto> rebuild_bytes dec)\<rparr>"
  have fa: "fix_audio ?e track0 w3 = (Inr (), w4)"
    by (simp add: fix_audio_def fix_audio_body_def paths w3_def w4_def ff)
  have f4: "files w4 ''dl/abc.encrypted.ogg'' = Some [1, 2, 3]"
    by (simp add: w4_def w3_def w2_def w1_def)
  have ps: "process_steps ?e track0 world0 = (Inr (), log INFO (cleanup ?e track0 w4))"
    by (simp add: process_steps_def d da rb fa)
  have re: "remove_error ?e p = Some OSError" for p
    by (simp add: env_refusing_def env0_def)
  have fc: "files (cleanup ?e track0 w4) ''dl/abc.encrypted.ogg'' = Some [1, 2, 3]"
    by (simp add: files_cleanup re f4)
  have "process_original ?e track0 world0 =
      (Inr (Some ''dl/abc.ogg''), log INFO (cleanup ?e track0 w4))"
    by (simp add: process_original_def os_path_exists_def files_world0 track0_truthy ps paths)
  then show ?thesis using fc by simp
qed

theorem process_original_cleanup_counterexample:
  "(fst (process_original env0 (track0\<lparr>key := None\<rparr>)
          (world0\<lparr>files := [''dl/abc.encrypted.ogg'' \<mapsto> [1]]\<rparr>)) = Inr None
    \<and> encrypted_file env0 (track0\<lparr>key := None\<rparr>) = ''dl/abc.encrypted.ogg''
    \<and> files (snd (process_original env0 (track0\<lparr>key := None\<rparr>)
          (world0\<lparr>files := [''dl/abc.encrypted.ogg'' \<mapsto> [1]]\<rparr>))) ''dl/abc.encrypted.ogg''
        = Some [1])
   \<and> (fst (process_original env_refusing track0 world0) = Inr (Some ''dl/abc.ogg'')
    \<and> encrypted_file env_refusing track0 = ''dl/abc.encrypted.ogg''
    \<and> files (snd (process_original env_refusing track0 world0)) ''dl/abc.encrypted.ogg''
        = Some [1, 2, 3])"
proof -
  have "encrypted_file env_refusing track0 = ''dl/abc.encrypted.ogg''"
    by (simp add: encrypted_file_def env_refusing_def env0_def track0_def os_path_join_def)
  then show ?thesis
    using process_original_stale_intermediate process_original_refused_removal by blast
qed

section \<open>Properties of \<open>download_track\<close>\<close>

lemma download_track_handler:
  "download_try env track w = (Inl e, w1) \<Longrightarrow>
   download_track env (Some track) w =
     (if lower (platform track) = ''spotify''
      then (case process_original env track (log WARNING w1) of
              (Inl e', w2) \<Rightarrow> (Inl e', w2)
            | (Inr p, w2) \<Rightarrow> (Inr (map_option FilePath p), w2))
      else (Inr None, log ERROR (log WARNING w1)))"
  by (simp add: download_track_def)

lemma lower_Spotify: "lower ''Spotify'' = ''spotify''"
  by (simp add: lower_def lower_char_def)

lemma track0_api_url:
  "spotify_api_url track0 = Inr (download_api @ ''https://open.spotify.com/track/abc'')"
  by (simp add: spotify_api_url_def track0_def lower_def lower_char_def truthy_str_def)

text \<open>C1, as the code has it. The check for an existing final output is the first step of
  \<open>process_original\<close>: when the output exists, \<open>process_original\<close> returns its path,
  leaves every file as it is and adds one log record and nothing else (no call of the HTTP
  client, no decrypt, repair, repack or cleanup step). \<open>download_track\<close> has no such check
  of its own: for a Spotify track it reaches \<open>process_original\<close>, and with it the check,
  only after its primary attempt has raised; it then returns the existing output's path.\<close>

theorem existing_output_short_circuit:
  "(os_path_exists w (output_file env track) \<longrightarrow>
      process_original env track w = (Inr (Some (output_file env track)), log INFO w)
      \<and> files (snd (process_original env track w)) = files w
      \<and> events (snd (process_original env track w)) = events w @ [Log INFO])
   \<and> (lower (platform track) = ''spotify'' \<and> download_try env track w = (Inl e, w1)
        \<and> os_path_exists w1 (output_file env track) \<longrightarrow>
      download_track env (Some track) w =
        (Inr (Some (FilePath (output_file env track))), log INFO (log WARNING w1)))"
proof (intro conjI impI)
  assume a: "os_path_exists w (output_file env track)"
  then show "process_original env track w = (Inr (Some (output_file env track)), log INFO w)"
    by (rule process_original_existing)
  from a show "files (snd (process_original env track w)) = files w"
    by (simp add: process_original_existing)
  from a show "events (snd (process_original env track w)) = events w @ [Log INFO]"
    by (simp add: process_original_existing)
next
  assume a: "lower (platform track) = ''spotify'' \<and> download_try env track w = (Inl e, w1)
        \<and> os_path_exists w1 (output_file env track)"
  then have "os_path_exists (log WARNING w1) (output_file env track)"
    by (simp add: os_path_exists_def)
  then have "process_original env track (log WARNING w1) =
      (Inr (Some (output_file env track)), log INFO (log WARNING w1))"
    by (rule process_original_existing)
  with a show "download_track env (Some track) w =
      (Inr (Some (FilePath (output_file env track))), log INFO (log WARNING w1))"
    by (simp add: download_track_handler)
qed

theorem existing_output_short_circuit_witness:
  "os_path_exists (world0\<lparr>files := [''dl/abc.ogg'' \<mapsto> [7]]\<rparr>) (output_file env0 track0)
   \<and> process_original env0 track0 (world0\<lparr>files := [''dl/abc.ogg'' \<mapsto> [7]]\<rparr>) =
       (Inr (Some ''dl/abc.ogg''), log INFO (world0\<lparr>files := [''dl/abc.ogg'' \<mapsto> [7]]\<rparr>))
   \<and> lower (platform track0) = ''spotify''
   \<and> download_track env0 (Some track0) (world0\<lparr>files := [''dl/abc.ogg'' \<mapsto> [7]]\<rparr>) =
       (Inr (Some (FilePath ''dl/abc.ogg'')),
        log INFO (log WARNING
          (emit (HttpDownload (download_api @ ''https://open.spotify.com/track/abc'') None)
             (world0\<lparr>files := [''dl/abc.ogg'' \<mapsto> [7]]\<rparr>))))"
proof -
  let ?w = "world0\<lparr>files := [''dl/abc.ogg'' \<mapsto> [7]]\<rparr>"
  let ?w1 = "emit (HttpDownload (download_api @ ''https://open.spotify.com/track/abc'') None) ?w"
  have 1: "os_path_exists ?w (output_file env0 track0)"
    by (simp add: os_path_exists_def track0_paths)
  have 2: "lower (platform track0) = ''spotify''"
    by (simp add: track0_def lower_Spotify)
  have df: "download_file env0 u dest fs = (Inl TransportError, fs)" for u dest fs
    by (simp add: env0_def)
  have 3: "download_try env0 track0 ?w = (Inl TransportError, ?w1)"
    by (simp add: download_try_def 2 track0_api_url client_download_def df)
  have 4: "os_path_exists ?w1 (output_file env0 track0)"
    by (simp add: os_path_exists_def track0_paths)
  from existing_output_short_circuit [of ?w env0 track0 TransportError ?w1]
  show ?thesis using 1 2 3 4 by (simp add: track0_paths)
qed

theorem existing_output_counterexample:
  "os_path_exists (world0\<lparr>files := [''dl/abc.ogg'' \<mapsto> [7]]\<rparr>) (output_file env_mp3 track0)
   \<and> output_file env_mp3 track0 = ''dl/abc.ogg''
   \<and> fst (download_track env_mp3 (Some track0) (world0\<lparr>files := [''dl/abc.ogg'' \<mapsto> [7]]\<rparr>)) =
       Inr (Some (FilePath ''dl/song.mp3''))
   \<and> events (snd (download_track env_mp3 (Some track0)
         (world0\<lparr>files := [''dl/abc.ogg'' \<mapsto> [7]]\<rparr>))) =
       [HttpDownload (download_api @ ''https://open.spotify.com/track/abc'') None]"
proof -
  let ?w = "world0\<lparr>files := [''dl/abc.ogg'' \<mapsto> [7]]\<rparr>"
  have out: "output_file env_mp3 track0 = ''dl/abc.ogg''"
    by (simp add: output_file_def env_mp3_def env0_def track0_def os_path_join_def)
  have 2: "lower (platform track0) = ''spotify''"
    by (simp add: track0_def lower_Spotify)
  have df: "download_file env_mp3 u dest fs =
      (Inr \<lparr>success = True, file_path = Some ''dl/song.mp3'', error = None\<rparr>,
       fs(''dl/song.mp3'' \<mapsto> []))" for u dest fs
    by (simp add: env_mp3_def)
  have suf: "lower (path_suffix ''dl/song.mp3'') = ''.mp3''"
    by (simp add: path_suffix_def path_name_def lower_def lower_char_def)
  have "download_try env_mp3 track0 ?w =
      (Inr (Some (FilePath ''dl/song.mp3'')),
       emit (HttpDownload (download_api @ ''https://open.spotify.com/track/abc'') None)
         (?w\<lparr>files := (files ?w)(''dl/song.mp3'' \<mapsto> [])\<rparr>))"
    by (simp add: download_try_def 2 track0_api_url client_download_def df suf)
  then have "download_track env_mp3 (Some track0) ?w =
      (Inr (Some (FilePath ''dl/song.mp3'')),
       emit (HttpDownload (download_api @ ''https://open.spotify.com/track/abc'') None)
         (?w\<lparr>files := (files ?w)(''dl/song.mp3'' \<mapsto> [])\<rparr>))"
    by (simp add: download_track_def)
  then show ?thesis
    by (simp add: out os_path_exists_def events_world0)
qed

lemma download_track_no_exception:
  "download_try env track w = (Inr r, w1) \<Longrightarrow> download_track env (Some track) w = (Inr r, w1)"
  by (simp add: download_track_def)

lemma download_try_no_id:
  "lower (platform track) = ''spotify'' \<Longrightarrow> \<not> str_contains (lower (url track)) ''playlist'' \<Longrightarrow>
   \<not> truthy_str (id' track) \<Longrightarrow> tc track = [] \<Longrightarrow>
   download_try env track w = (Inl (Exception ''No track ID available''), w)"
  by (simp add: download_try_def spotify_api_url_def)

lemma download_try_network_error:
  "lower (platform track) = ''spotify'' \<Longrightarrow> spotify_api_url track = Inr u \<Longrightarrow>
   download_file env u None (files w) = (Inl e, fs') \<Longrightarrow>
   fst (download_try env track w) = Inl e"
  by (simp add: download_try_def client_download_def)

lemma download_try_failed_result:
  "lower (platform track) = ''spotify'' \<Longrightarrow> spotify_api_url track = Inr u \<Longrightarrow>
   download_file env u None (files w) = (Inr r, fs') \<Longrightarrow> \<not> success r \<Longrightarrow>
   \<exists>msg. fst (download_try env track w) = Inl (Exception msg)"
  by (simp add: download_try_def client_download_def)

lemma download_try_content_type:
  "lower (platform track) = ''spotify'' \<Longrightarrow> spotify_api_url track = Inr u \<Longrightarrow>
   download_file env u None (files w) = (Inr r, fs') \<Longrightarrow> success r \<Longrightarrow>
   file_path r = Some fp \<Longrightarrow> lower (path_suffix fp) \<notin> {''.mp3'', ''.zip''} \<Longrightarrow>
   fst (download_try env track w) =
     Inl (Exception (''Invalid content type: '' @ lower (path_suffix fp)))"
  by (simp add: download_try_def client_download_def Let_def)

text \<open>C9. In \<open>download_track\<close>, whenever the \<^verbatim>\<open>try\<close> block raises, the handler runs
  \<open>process_original\<close> and returns what it returns if the track's platform is Spotify (in
  any letter case), and otherwise returns \<^verbatim>\<open>None\<close> after two log records, with no other
  effect; when the block does not raise, its value is returned and no fallback runs. For a
  Spotify track the block raises on a network error of the download, on a download result
  that is not a success, on a content type other than \<^verbatim>\<open>.mp3\<close> and \<^verbatim>\<open>.zip\<close>, and, on the
  single-track path, whenever neither \<open>id\<close> nor \<open>tc\<close> gives a track id.\<close>

theorem download_track_fallback:
  "(download_try env track w = (Inl e, w1) \<and> lower (platform track) = ''spotify'' \<longrightarrow>
      (\<exists>p w2. process_original env track (log WARNING w1) = (Inr p, w2)
              \<and> download_track env (Some track) w = (Inr (map_option FilePath p), w2)))
   \<and> (download_try env track w = (Inl e, w1) \<and> lower (platform track) \<noteq> ''spotify'' \<longrightarrow>
        download_track env (Some track) w = (Inr None, log ERROR (log WARNING w1)))
   \<and> (download_try env track w = (Inr r, w1) \<longrightarrow>
        download_track env (Some track) w = (Inr r, w1))
   \<and> (lower (platform track) = ''spotify'' \<and> \<not> str_contains (lower (url track)) ''playlist''
        \<and> \<not> truthy_str (id' track) \<and> tc track = [] \<longrightarrow>
        download_try env track w = (Inl (Exception ''No track ID available''), w))
   \<and> (lower (platform track) = ''spotify'' \<and> spotify_api_url track = Inr u
        \<and> download_file env u None (files w) = (Inl e', fs') \<longrightarrow>
        fst (download_try env track w) = Inl e')
   \<and> (lower (platform track) = ''spotify'' \<and> spotify_api_url track = Inr u
        \<and> download_file env u None (files w) = (Inr res, fs') \<and> \<not> success res \<longrightarrow>
        (\<exists>msg. fst (download_try env track w) = Inl (Exception msg)))
   \<and> (lower (platform track) = ''spotify'' \<and> spotify_api_url track = Inr u
        \<and> download_file env u None (files w) = (Inr res, fs') \<and> success res
        \<and> file_path res = Some fp \<and> lower (path_suffix fp) \<notin> {''.mp3'', ''.zip''} \<longrightarrow>
        fst (download_try env track w) =
          Inl (Exception (''Invalid content type: '' @ lower (path_suffix fp))))"
proof (intro conjI impI)
  assume a: "download_try env track w = (Inl e, w1) \<and> lower (platform track) = ''spotify''"
  obtain q w2 where q: "process_original env track (log WARNING w1) = (q, w2)"
    by (cases "process_original env track (log WARNING w1)")
  obtain p where p: "q = Inr p"
    using process_original_returns [of env track "log WARNING w1"] q by auto
  have "download_track env (Some track) w = (Inr (map_option FilePath p), w2)"
    using a q p by (simp add: download_track_handler)
  with q p show "\<exists>p w2. process_original env track (log WARNING w1) = (Inr p, w2)
      \<and> download_track env (Some track) w = (Inr (map_option FilePath p), w2)"
    by blast
next
  assume "download_try env track w = (Inl e, w1) \<and> lower (platform track) \<noteq> ''spotify''"
  then show "download_track env (Some track) w = (Inr None, log ERROR (log WARNING w1))"
    by (simp add: download_track_handler)
next
  assume "download_try env track w = (Inr r, w1)"
  then show "download_track env (Some track) w = (Inr r, w1)"
    by (rule download_track_no_exception)
next
  assume "lower (platform track) = ''spotify'' \<and> \<not> str_contains (lower (url track)) ''playlist''
        \<and> \<not> truthy_str (id' track) \<and> tc track = []"
  then show "download_try env track w = (Inl (Exception ''No track ID available''), w)"
    by (simp add: download_try_no_id)
next
  assume "lower (platform track) = ''spotify'' \<and> spotify_api_url track = Inr u
        \<and> download_file env u None (files w) = (Inl e', fs')"
  then show "fst (download_try env track w) = Inl e'"
    by (blast intro: download_try_network_error)
next
  assume "lower (platform track) = ''spotify'' \<and> spotify_api_url track = Inr u
        \<and> download_file env u None (files w) = (Inr res, fs') \<and> \<not> success res"
  then show "\<exists>msg. fst (download_try env track w) = Inl (Exception msg)"
    by (blast intro: download_try_failed_result)
next
  assume "lower (platform track) = ''spotify'' \<and> spotify_api_url track = Inr u
        \<and> download_file env u None (files w) = (Inr res, fs') \<and> success res
        \<and> file_path res = Some fp \<and> lower (path_suffix fp) \<notin> {''.mp3'', ''.zip''}"
  then show "fst (download_try env track w) =
      Inl (Exception (''Invalid content type: '' @ lower (path_suffix fp)))"
    by (blast intro: download_try_content_type)
qed

theorem download_track_fallback_witness:
  "(\<exists>p w2. process_original env0 track0
        (log WARNING (emit (HttpDownload (download_api @ ''https://open.spotify.com/track/abc'') None)
           world0)) = (Inr p, w2)
      \<and> download_track env0 (Some track0) world0 = (Inr (map_option FilePath p), w2))
   \<and> lower (platform (track0\<lparr>platform := ''SoundCloud''\<rparr>)) \<noteq> ''spotify''
   \<and> download_track env0 (Some (track0\<lparr>platform := ''SoundCloud''\<rparr>)) world0 =
       (Inr None, log ERROR (log WARNING
          (emit (HttpDownload ''https://cdn.example/abc'' (Some ''dl/abc.mp3'')) world0)))
   \<and> download_track env_mp3 (Some track0) world0 =
       (Inr (Some (FilePath ''dl/song.mp3'')),
        emit (HttpDownload (download_api @ ''https://open.spotify.com/track/abc'') None)
          (world0\<lparr>files := [''dl/song.mp3'' \<mapsto> []]\<rparr>))
   \<and> download_try env0 (track0\<lparr>id' := None, tc := []\<rparr>) world0 =
       (Inl (Exception ''No track ID available''), world0)
   \<and> fst (download_try env0 track0 world0) = Inl TransportError
   \<and> (\<exists>msg. fst (download_try
         (env0\<lparr>download_file := (\<lambda>u dest fs.
             (Inr \<lparr>success = False, file_path = None, error = Some ''404''\<rparr>, fs))\<rparr>)
         track0 world0) = Inl (Exception msg))
   \<and> fst (download_try
         (env0\<lparr>download_file := (\<lambda>u dest fs.
             (Inr \<lparr>success = True, file_path = Some ''dl/a.TXT'', error = None\<rparr>, fs))\<rparr>)
         track0 world0) = Inl (Exception ''Invalid content type: .txt'')"
proof -
  let ?u = "download_api @ ''https://open.spotify.com/track/abc''"
  let ?w1 = "emit (HttpDownload ?u None) world0"
  have sp: "lower (platform track0) = ''spotify''"
    by (simp add: track0_def lower_Spotify)
  have df0: "download_file env0 u dest fs = (Inl TransportError, fs)" for u dest fs
    by (simp add: env0_def)
  have t0: "download_try env0 track0 world0 = (Inl TransportError, ?w1)"
    by (simp add: download_try_def sp track0_api_url client_download_def df0)
  have 1: "\<exists>p w2. process_original env0 track0 (log WARNING ?w1) = (Inr p, w2)
      \<and> download_track env0 (Some track0) world0 = (Inr (map_option FilePath p), w2)"
    using download_track_fallback [of env0 track0 world0 TransportError ?w1] t0 sp by blast
  let ?sc = "track0\<lparr>platform := ''SoundCloud''\<rparr>"
  let ?w1' = "emit (HttpDownload ''https://cdn.example/abc'' (Some ''dl/abc.mp3'')) world0"
  have nsp: "lower (platform ?sc) \<noteq> ''spotify''"
    by (simp add: lower_def lower_char_def)
  have tsc: "download_try env0 ?sc world0 = (Inl TransportError, ?w1')"
    using nsp by (simp add: download_try_def client_download_def df0 truthy_str_def track0_def
        os_path_join_def env0_def)
  have 2: "download_track env0 (Some ?sc) world0 = (Inr None, log ERROR (log WARNING ?w1'))"
    using download_track_fallback [of env0 ?sc world0 TransportError ?w1'] tsc nsp by blast
  let ?w3 = "emit (HttpDownload ?u None) (world0\<lparr>files := [''dl/song.mp3'' \<mapsto> []]\<rparr>)"
  have dfm: "download_file env_mp3 u dest fs =
      (Inr \<lparr>success = True, file_path = Some ''dl/song.mp3'', error = None\<rparr>,
       fs(''dl/song.mp3'' \<mapsto> []))" for u dest fs
    by (simp add: env_mp3_def)
  have suf: "lower (path_suffix ''dl/song.mp3'') = ''.mp3''"
    by (simp add: path_suffix_def path_name_def lower_def lower_char_def)
  have tm: "download_try env_mp3 track0 world0 = (Inr (Some (FilePath ''dl/song.mp3'')), ?w3)"
    by (simp add: download_try_def sp track0_api_url client_download_def dfm suf world0_def)
  have 3: "download_track env_mp3 (Some track0) world0 =
      (Inr (Some (FilePath ''dl/song.mp3'')), ?w3)"
    using download_track_fallback [of env_mp3 track0 world0 _ ?w3 "Some (FilePath ''dl/song.mp3'')"]
      tm by blast
  let ?ni = "track0\<lparr>id' := None, tc := []\<rparr>"
  have ni: "lower (platform ?ni) = ''spotify''"
    "\<not> str_contains (lower (url ?ni)) ''playlist''" "\<not> truthy_str (id' ?ni)" "tc ?ni = []"
    by (simp_all add: track0_def lower_def lower_char_def truthy_str_def)
  have 4: "download_try env0 ?ni world0 = (Inl (Exception ''No track ID available''), world0)"
    using download_track_fallback [of env0 ?ni world0] ni by blast
  have 5: "fst (download_try env0 track0 world0) = Inl TransportError"
    using download_track_fallback [of env0 track0 world0 _ _ _ ?u TransportError "files world0"]
      sp track0_api_url df0 by blast
  let ?ef = "env0\<lparr>download_file := (\<lambda>u dest fs.
             (Inr \<lparr>success = False, file_path = None, error = Some ''404''\<rparr>, fs))\<rparr>"
  have 6: "\<exists>msg. fst (download_try ?ef track0 world0) = Inl (Exception msg)"
    using download_track_fallback [of ?ef track0 world0 _ _ _ ?u _ "files world0"
        "\<lparr>success = False, file_path = None, error = Some ''404''\<rparr>"]
      sp track0_api_url by simp
  let ?et = "env0\<lparr>download_file := (\<lambda>u dest fs.
             (Inr \<lparr>success = True, file_path = Some ''dl/a.TXT'', error = None\<rparr>, fs))\<rparr>"
  have suft: "lower (path_suffix ''dl/a.TXT'') = ''.txt''"
    by (simp add: path_suffix_def path_name_def lower_def lower_char_def)
  have 7: "fst (download_try ?et track0 world0) = Inl (Exception ''Invalid content type: .txt'')"
    using download_track_fallback [of ?et track0 world0 _ _ _ ?u _ "files world0"
        "\<lparr>success = True, file_path = Some ''dl/a.TXT'', error = None\<rparr>" "''dl/a.TXT''"]
      sp track0_api_url suft by simp
  show ?thesis using 1 nsp 2 3 4 5 6 7 by blast
qed

section \<open>Properties of the archive extraction\<close>

lemma extract_loop_ok:
  "extract_loop env members acc w = (Inr xs, w1) \<Longrightarrow>
   xs = acc @ mp3_paths env members
   \<and> files w1 = extracted_fs env members (files w)
   \<and> events w1 = events w"
proof (induction members arbitrary: acc w)
  case Nil
  then show ?case by (auto simp: mp3_paths_def)
next
  case (Cons m members)
  obtain file_name payload where m: "m = (file_name, payload)" by (cases m)
  show ?case
  proof (cases "endswith file_name ''.mp3''")
    case False
    with Cons.prems m have "extract_loop env members acc w = (Inr xs, w1)" by simp
    from Cons.IH [OF this] show ?thesis
      using False m by (auto simp: mp3_paths_def split: sum.splits)
  next
    case True
    show ?thesis
    proof (cases payload)
      case (Inl e)
      with Cons.prems m True show ?thesis by simp
    next
      case (Inr bytes)
      let ?w = "w\<lparr>files := (files w)(zip_target env (DOWNLOADS_DIR env) file_name \<mapsto> bytes)\<rparr>"
      from Cons.prems m True Inr
      have "extract_loop env members (acc @ [os_path_join (DOWNLOADS_DIR env) file_name]) ?w =
          (Inr xs, w1)" by simp
      from Cons.IH [OF this]
      have ih: "xs = (acc @ [os_path_join (DOWNLOADS_DIR env) file_name]) @ mp3_paths env members"
        "files w1 = extracted_fs env members (files ?w)" "events w1 = events ?w"
        by blast+
      have "files ?w = (files w)(zip_target env (DOWNLOADS_DIR env) file_name \<mapsto> bytes)"
        by simp
      with ih show ?thesis
        using True m Inr by (simp add: mp3_paths_def)
    qed
  qed
qed

lemma extract_loop_keeps:
  "extract_loop env members acc w = (r, w1) \<Longrightarrow> files w p \<noteq> None \<Longrightarrow> files w1 p \<noteq> None"
proof (induction members arbitrary: acc w)
  case Nil
  then show ?case by auto
next
  case (Cons m members)
  obtain file_name payload where m: "m = (file_name, payload)" by (cases m)
  show ?case
  proof (cases "endswith file_name ''.mp3''")
    case False
    with Cons.prems m have "extract_loop env members acc w = (r, w1)" by simp
    from Cons.IH [OF this Cons.prems(2)] show ?thesis .
  next
    case True
    show ?thesis
    proof (cases payload)
      case (Inl e)
      with Cons.prems m True show ?thesis by auto
    next
      case (Inr bytes)
      let ?w = "w\<lparr>files := (files w)(zip_target env (DOWNLOADS_DIR env) file_name \<mapsto> bytes)\<rparr>"
      from Cons.prems m True Inr
      have 1: "extract_loop env members (acc @ [os_path_join (DOWNLOADS_DIR env) file_name]) ?w =
          (r, w1)" by simp
      have 2: "files ?w p \<noteq> None" using Cons.prems(2) by simp
      from Cons.IH [OF 1 2] show ?thesis .
    qed
  qed
qed

lemma extract_zip_body_ok:
  assumes "extract_zip_body env zip_path w = (Inr xs, w')"
  shows "\<exists>archive members.
      files w zip_path = Some archive \<and> zip_open env archive = Inr members
      \<and> xs = mp3_paths env members
      \<and> files w' = (extracted_fs env members (files w))(zip_path := None)"
proof -
  from assms obtain archive where a: "files w zip_path = Some archive"
    by (auto simp: extract_zip_body_def split: option.splits)
  from assms a have oe: "open_error env zip_path = None"
    by (auto simp: extract_zip_body_def split: option.splits)
  from assms a oe obtain members where ms: "zip_open env archive = Inr members"
    by (auto simp: extract_zip_body_def split: sum.splits)
  obtain r w1 where l: "extract_loop env members [] w = (r, w1)"
    by (cases "extract_loop env members [] w")
  from assms a oe ms l obtain ys where r: "r = Inr ys"
    by (cases r) (auto simp: extract_zip_body_def)
  from assms a oe ms l r obtain w2 where rm: "os_remove env zip_path w1 = Inr w2"
    by (cases "os_remove env zip_path w1") (auto simp: extract_zip_body_def)
  from assms a oe ms l r rm have res: "xs = ys" "w' = log INFO w2"
    by (auto simp: extract_zip_body_def)
  from extract_loop_ok [OF l [unfolded r]]
  have ys: "ys = mp3_paths env members" and f1: "files w1 = extracted_fs env members (files w)"
    by auto
  from rm have "files w2 = (files w1)(zip_path := None)"
    by (auto simp: os_remove_def split: if_splits option.splits)
  with a ms res ys f1 show ?thesis by simp
qed

lemma extract_zip_body_error:
  assumes "extract_zip_body env zip_path w = (Inl e, w')" and "files w zip_path \<noteq> None"
  shows "files w' zip_path \<noteq> None"
proof -
  from assms(2) obtain archive where a: "files w zip_path = Some archive" by auto
  show ?thesis
  proof (cases "open_error env zip_path")
    case (Some e')
    with assms a show ?thesis by (auto simp: extract_zip_body_def)
  next
    case None
    show ?thesis
    proof (cases "zip_open env archive")
      case (Inl e')
      with assms a None show ?thesis by (auto simp: extract_zip_body_def)
    next
      case (Inr members)
      obtain r w1 where l: "extract_loop env members [] w = (r, w1)"
        by (cases "extract_loop env members [] w")
      have k: "files w1 zip_path \<noteq> None"
        using extract_loop_keeps [OF l assms(2)] .
      from assms(1) a None Inr l have "w' = w1"
        by (cases r) (auto simp: extract_zip_body_def split: sum.splits)
      with k show ?thesis by simp
    qed
  qed
qed

text \<open>C10. \<open>_extract_zip\<close> never raises. When its \<^verbatim>\<open>try\<close> block runs to the end, it returns
  the paths of exactly the members whose names end with \<^verbatim>\<open>.mp3\<close>, in archive order, these
  members are the files it has written, and the archive is deleted. When anything in the
  block raises (opening the archive, reading a member, removing the archive), it logs an
  error and returns the empty list, and an archive that existed still exists.\<close>

theorem extract_zip_never_raises:
  "(\<exists>xs. fst (extract_zip env zip_path w) = Inr xs)
   \<and> (extract_zip_body env zip_path (emit (Step Extract) w) = (Inr xs, w') \<longrightarrow>
        extract_zip env zip_path w = (Inr xs, w')
        \<and> (\<exists>archive members.
              files w zip_path = Some archive \<and> zip_open env archive = Inr members
              \<and> xs = mp3_paths env members
              \<and> files w' = (extracted_fs env members (files w))(zip_path := None)))
   \<and> (extract_zip_body env zip_path (emit (Step Extract) w) = (Inl e, w') \<longrightarrow>
        extract_zip env zip_path w = (Inr [], log ERROR w')
        \<and> (files w zip_path \<noteq> None \<longrightarrow> files (snd (extract_zip env zip_path w)) zip_path \<noteq> None))"
proof (intro conjI impI)
  show "\<exists>xs. fst (extract_zip env zip_path w) = Inr xs"
    by (simp add: extract_zip_def split: prod.splits sum.splits)
next
  assume a: "extract_zip_body env zip_path (emit (Step Extract) w) = (Inr xs, w')"
  then show "extract_zip env zip_path w = (Inr xs, w')"
    by (simp add: extract_zip_def)
  from extract_zip_body_ok [OF a]
  show "\<exists>archive members.
      files w zip_path = Some archive \<and> zip_open env archive = Inr members
      \<and> xs = mp3_paths env members
      \<and> files w' = (extracted_fs env members (files w))(zip_path := None)"
    by simp
next
  assume a: "extract_zip_body env zip_path (emit (Step Extract) w) = (Inl e, w')"
  then show r: "extract_zip env zip_path w = (Inr [], log ERROR w')"
    by (simp add: extract_zip_def)
  assume "files w zip_path \<noteq> None"
  then have "files (emit (Step Extract) w) zip_path \<noteq> None" by simp
  from extract_zip_body_error [OF a this]
  show "files (snd (extract_zip env zip_path w)) zip_path \<noteq> None"
    by (simp add: r)
qed

theorem extract_zip_never_raises_witness:
  "fst (extract_zip env_zip ''dl/x.zip'' (world0\<lparr>files := [''dl/x.zip'' \<mapsto> [80, 75]]\<rparr>)) =
     Inr [''dl/a.mp3'', ''dl/b.mp3'']
   \<and> files (snd (extract_zip env_zip ''dl/x.zip''
         (world0\<lparr>files := [''dl/x.zip'' \<mapsto> [80, 75]]\<rparr>))) ''dl/x.zip'' = None
   \<and> fst (extract_zip env_badzip ''dl/x.zip'' (world0\<lparr>files := [''dl/x.zip'' \<mapsto> [80, 75]]\<rparr>)) =
     Inr []
   \<and> files (snd (extract_zip env_badzip ''dl/x.zip''
         (world0\<lparr>files := [''dl/x.zip'' \<mapsto> [80, 75]]\<rparr>))) ''dl/x.zip'' \<noteq> None"
proof -
  let ?p = "''dl/x.zip''"
  let ?w = "world0\<lparr>files := [?p \<mapsto> [80, 75]]\<rparr>"
  have mp3: "endswith ''a.mp3'' ''.mp3''" "\<not> endswith ''notes.txt'' ''.mp3''"
    "endswith ''b.mp3'' ''.mp3''"
    by (simp_all add: endswith_def)
  have sel: "DOWNLOADS_DIR env_zip = ''dl''" "open_error env_zip q = None"
    "remove_error env_zip q = None" "zip_target env_zip = os_path_join"
    "zip_open env_zip a = Inr [(''a.mp3'', Inr [1]), (''notes.txt'', Inr [2]), (''b.mp3'', Inr [3])]"
    for q a
    by (simp_all add: env_zip_def env0_def)
  have "fst (extract_zip_body env_zip ?p (emit (Step Extract) ?w)) =
      Inr [''dl/a.mp3'', ''dl/b.mp3'']"
    by (simp add: extract_zip_body_def mp3 sel os_remove_def os_path_join_def)
  then obtain w' where b: "extract_zip_body env_zip ?p (emit (Step Extract) ?w) =
      (Inr [''dl/a.mp3'', ''dl/b.mp3''], w')"
    by (cases "extract_zip_body env_zip ?p (emit (Step Extract) ?w)") auto
  note ok = extract_zip_never_raises [of env_zip ?p ?w "[''dl/a.mp3'', ''dl/b.mp3'']" w',
      THEN conjunct2, THEN conjunct1, rule_format, OF b]
  from ok have 1: "fst (extract_zip env_zip ?p ?w) = Inr [''dl/a.mp3'', ''dl/b.mp3'']"
    by simp
  from ok have 2: "files (snd (extract_zip env_zip ?p ?w)) ?p = None"
    by auto
  have selb: "DOWNLOADS_DIR env_badzip = ''dl''" "open_error env_badzip q = None"
    "zip_target env_badzip = os_path_join"
    "zip_open env_badzip a =
       Inr [(''a.mp3'', Inr [1]), (''notes.txt'', Inr [2]), (''b.mp3'', Inl BadZipFile)]"
    for q a
    by (simp_all add: env_badzip_def env0_def)
  have "fst (extract_zip_body env_badzip ?p (emit (Step Extract) ?w)) = Inl BadZipFile"
    by (simp add: extract_zip_body_def mp3 selb)
  then obtain w'' where bb: "extract_zip_body env_badzip ?p (emit (Step Extract) ?w) =
      (Inl BadZipFile, w'')"
    by (cases "extract_zip_body env_badzip ?p (emit (Step Extract) ?w)") auto
  note bad = extract_zip_never_raises [of env_badzip ?p ?w _ w'' BadZipFile,
      THEN conjunct2, THEN conjunct2, rule_format, OF bb]
  from bad have 3: "fst (extract_zip env_badzip ?p ?w) = Inr []"
    by simp
  have "files ?w ?p \<noteq> None" by simp
  with bad have 4: "files (snd (extract_zip env_badzip ?p ?w)) ?p \<noteq> None"
    by blast
  show ?thesis using 1 2 3 4 by blast
qed

section \<open>Properties of the response parser\<close>

lemma valid_tracks_drop:
  "\<not> is_dict x \<Longrightarrow> valid_tracks MusicTrack (xs @ x # ys) = valid_tracks MusicTrack (xs @ ys)"
  by (induction xs) (auto split: json.splits sum.splits)

lemma mapping_entries_drop:
  "\<not> is_dict x \<Longrightarrow> mapping_entries (xs @ x # ys) = mapping_entries (xs @ ys)"
proof (induction xs)
  case Nil
  then show ?case by (cases x) auto
next
  case (Cons a xs)
  then show ?case by (cases a) auto
qed

lemma valid_tracks_built:
  "valid_tracks MusicTrack entries = Inr ts \<Longrightarrow>
   map MusicTrack (mapping_entries entries) = map Inr ts"
proof (induction entries arbitrary: ts)
  case Nil
  then show ?case by simp
next
  case (Cons a entries)
  show ?case
  proof (cases a)
    case (JObj kvs)
    show ?thesis
    proof (cases "kvs = []")
      case True
      with Cons JObj show ?thesis by simp
    next
      case False
      with Cons.prems JObj obtain t ts' where
        "MusicTrack kvs = Inr t" "valid_tracks MusicTrack entries = Inr ts'" "ts = t # ts'"
        by (auto split: sum.splits)
      with Cons.IH [of ts'] JObj False show ?thesis by simp
    qed
  qed (use Cons in auto)
qed

lemma valid_tracks_total:
  "\<forall>kvs \<in> set (mapping_entries entries). \<exists>t. MusicTrack kvs = Inr t \<Longrightarrow>
   \<exists>ts. valid_tracks MusicTrack entries = Inr ts"
proof (induction entries)
  case Nil
  then show ?case by simp
next
  case (Cons a entries)
  show ?case
  proof (cases a)
    case (JObj kvs)
    show ?thesis
    proof (cases "kvs = []")
      case True
      with Cons JObj show ?thesis by simp
    next
      case False
      with Cons JObj obtain t ts' where
        "MusicTrack kvs = Inr t" "valid_tracks MusicTrack entries = Inr ts'"
        by auto
      with JObj False show ?thesis by simp
    qed
  qed (use Cons in auto)
qed

lemma parse_usable:
  "parse_tracks_response MusicTrack data = Inr (Some ts) \<Longrightarrow>
   \<exists>kvs. data = JObj kvs \<and> ''results'' \<in> set (map fst kvs) \<and> ts \<noteq> []"
  by (cases data)
     (auto simp: parse_tracks_response_def split: if_splits sum.splits option.splits)

lemma parse_results_list:
  "map_of kvs ''results'' = Some (JArr entries) \<Longrightarrow>
   parse_tracks_response MusicTrack (JObj kvs) =
     (case valid_tracks MusicTrack entries of
        Inl e \<Rightarrow> Inl e
      | Inr ts \<Rightarrow> Inr (if ts \<noteq> [] then Some ts else None))"
proof -
  assume a: "map_of kvs ''results'' = Some (JArr entries)"
  then have "(''results'', JArr entries) \<in> set kvs" by (rule map_of_SomeD)
  then have "''results'' \<in> fst ` set kvs" "kvs \<noteq> []" by force+
  with a show ?thesis
    by (simp add: parse_tracks_response_def)
qed

text \<open>C8. \<open>_parse_tracks_response\<close> gives a track list only for a mapping that contains the
  key \<^verbatim>\<open>results\<close>, and never gives an empty list: with no valid entry left the result is
  \<^verbatim>\<open>None\<close>. An entry of \<^verbatim>\<open>results\<close> that is not a mapping (so also \<^verbatim>\<open>null\<close>) is dropped
  without any effect on the result; the tracks returned are those built from the entries
  that are (non-empty) mappings, in the order of the entries. The example of the
  specification, two mappings with a \<^verbatim>\<open>null\<close> between them and a string after them, gives
  exactly the two tracks, in order.\<close>

theorem parse_tracks_response_filters:
  "(parse_tracks_response MusicTrack data = Inr (Some ts) \<longrightarrow>
      (\<exists>kvs. data = JObj kvs \<and> ''results'' \<in> set (map fst kvs)) \<and> ts \<noteq> [])
   \<and> (\<not> is_dict x \<longrightarrow>
        valid_tracks MusicTrack (xs @ x # ys) = valid_tracks MusicTrack (xs @ ys))
   \<and> (map_of kvs ''results'' = Some (JArr entries)
        \<and> (\<forall>d \<in> set (mapping_entries entries). \<exists>t. MusicTrack d = Inr t) \<longrightarrow>
        (\<exists>built. map MusicTrack (mapping_entries entries) = map Inr built
           \<and> parse_tracks_response MusicTrack (JObj kvs) =
               Inr (if built \<noteq> [] then Some built else None)))
   \<and> (d1 \<noteq> [] \<and> d2 \<noteq> [] \<and> MusicTrack d1 = Inr t1 \<and> MusicTrack d2 = Inr t2 \<longrightarrow>
        parse_tracks_response MusicTrack
          (JObj [(''results'', JArr [JObj d1, JNull, JObj d2, JStr ''not-a-dict''])]) =
        Inr (Some [t1, t2]))"
proof (intro conjI impI)
  assume "parse_tracks_response MusicTrack data = Inr (Some ts)"
  from parse_usable [OF this]
  show "\<exists>kvs. data = JObj kvs \<and> ''results'' \<in> set (map fst kvs)" and "ts \<noteq> []"
    by auto
next
  assume "\<not> is_dict x"
  then show "valid_tracks MusicTrack (xs @ x # ys) = valid_tracks MusicTrack (xs @ ys)"
    by (rule valid_tracks_drop)
next
  assume a: "map_of kvs ''results'' = Some (JArr entries)
        \<and> (\<forall>d \<in> set (mapping_entries entries). \<exists>t. MusicTrack d = Inr t)"
  then obtain built where b: "valid_tracks MusicTrack entries = Inr built"
    using valid_tracks_total [of entries MusicTrack] by blast
  have "map MusicTrack (mapping_entries entries) = map Inr built"
    using b by (rule valid_tracks_built)
  moreover have "parse_tracks_response MusicTrack (JObj kvs) =
      Inr (if built \<noteq> [] then Some built else None)"
    using a b by (simp add: parse_results_list)
  ultimately show "\<exists>built. map MusicTrack (mapping_entries entries) = map Inr built
      \<and> parse_tracks_response MusicTrack (JObj kvs) =
          Inr (if built \<noteq> [] then Some built else None)"
    by blast
next
  assume "d1 \<noteq> [] \<and> d2 \<noteq> [] \<and> MusicTrack d1 = Inr t1 \<and> MusicTrack d2 = Inr t2"
  then show "parse_tracks_response MusicTrack
      (JObj [(''results'', JArr [JObj d1, JNull, JObj d2, JStr ''not-a-dict''])]) =
      Inr (Some [t1, t2])"
    by (simp add: parse_tracks_response_def)
qed

theorem parse_tracks_response_filters_witness:
  "parse_tracks_response Inr
     (JObj [(''results'',
        JArr [JObj [(''id'', JNum 1)], JNull, JObj [(''id'', JNum 2)], JStr ''not-a-dict''])]) =
     Inr (Some [[(''id'', JNum 1)], [(''id'', JNum 2)]])
   \<and> \<not> is_dict JNull
   \<and> valid_tracks Inr ([JObj [(''id'', JNum 1)]] @ JNull # [JObj [(''id'', JNum 2)]]) =
       (valid_tracks Inr ([JObj [(''id'', JNum 1)]] @ [JObj [(''id'', JNum 2)]])
          :: exn + (string \<times> json) list list)
   \<and> parse_tracks_response (Inr :: (string \<times> json) list \<Rightarrow> exn + (string \<times> json) list)
       (JObj [(''results'', JArr [JNull, JStr ''x''])]) = Inr None"
proof -
  let ?mk = "Inr :: (string \<times> json) list \<Rightarrow> exn + (string \<times> json) list"
  let ?d1 = "[(''id'', JNum 1)]"
  let ?d2 = "[(''id'', JNum 2)]"
  note t = parse_tracks_response_filters [of ?mk _ _ JNull "[JObj ?d1]" "[JObj ?d2]"
      "[(''results'', JArr [JNull, JStr ''x''])]" "[JNull, JStr ''x'']" ?d1 ?d2 ?d1 ?d2]
  from t have 1: "parse_tracks_response ?mk
      (JObj [(''results'', JArr [JObj ?d1, JNull, JObj ?d2, JStr ''not-a-dict''])]) =
      Inr (Some [?d1, ?d2])"
    by simp
  have 2: "\<not> is_dict JNull" by simp
  from t 2 have 3: "valid_tracks ?mk ([JObj ?d1] @ JNull # [JObj ?d2]) =
      valid_tracks ?mk ([JObj ?d1] @ [JObj ?d2])"
    by blast
  have "map_of [(''results'', JArr [JNull, JStr ''x''])] ''results'' = Some (JArr [JNull, JStr ''x''])"
    by simp
  moreover have "\<forall>d \<in> set (mapping_entries [JNull, JStr ''x'']). \<exists>t. ?mk d = Inr t"
    by simp
  ultimately have "\<exists>built. map ?mk (mapping_entries [JNull, JStr ''x'']) = map Inr built
      \<and> parse_tracks_response ?mk (JObj [(''results'', JArr [JNull, JStr ''x''])]) =
          Inr (if built \<noteq> [] then Some built else None)"
    using t by blast
  then have 4: "parse_tracks_response ?mk (JObj [(''results'', JArr [JNull, JStr ''x''])]) = Inr None"
    by auto
  show ?thesis using 1 2 3 4 by blast
qed

section \<open>Properties of \<open>search\<close>\<close>

lemma search_primary_raises:
  assumes "truthy_str (query self)" and "\<not> is_valid env (query self)"
    and "make_request env new_search_url [(''q'', the (query self))] = Inl e"
  shows "search MusicTrack env self w =
     old_api MusicTrack env ''search_track'' [(''q'', the (query self))]
       (log WARNING (emit (HttpRequest new_search_url [(''q'', the (query self))]) w))"
  using assms by (simp add: search_def search_try_def client_request_def)

lemma search_primary_returns:
  assumes "truthy_str (query self)" and "\<not> is_valid env (query self)"
    and "make_request env new_search_url [(''q'', the (query self))] = Inr response"
    and "has_results response = Inr True"
    and "parse_tracks_response MusicTrack response = Inr r"
  shows "search MusicTrack env self w =
     (Inr r, emit (HttpRequest new_search_url [(''q'', the (query self))]) w)"
  using assms by (simp add: search_def search_try_def client_request_def)

lemma search_primary_empty:
  assumes "truthy_str (query self)" and "\<not> is_valid env (query self)"
    and "make_request env new_search_url [(''q'', the (query self))] = Inr response"
    and "has_results response = Inr False"
  shows "search MusicTrack env self w =
     old_api MusicTrack env ''search_track'' [(''q'', the (query self))]
       (emit (HttpRequest new_search_url [(''q'', the (query self))]) w)"
  using assms by (simp add: search_def search_try_def client_request_def)

lemma search_primary_unparsable:
  assumes "truthy_str (query self)" and "\<not> is_valid env (query self)"
    and "make_request env new_search_url [(''q'', the (query self))] = Inr response"
    and "has_results response = Inl e
         \<or> (has_results response = Inr True \<and> parse_tracks_response MusicTrack response = Inl e)"
  shows "search MusicTrack env self w =
     old_api MusicTrack env ''search_track'' [(''q'', the (query self))]
       (log WARNING (emit (HttpRequest new_search_url [(''q'', the (query self))]) w))"
  using assms by (auto simp: search_def search_try_def client_request_def)

lemma old_api_configured:
  assumes "truthy_str (api_url env)" and "truthy_str (api_key env)"
  shows "old_api MusicTrack env endpoint params w =
     (case make_request env (the (api_url env) @ ''/'' @ lstrip_slash endpoint) params of
        Inl e \<Rightarrow> Inl e
      | Inr data \<Rightarrow> if truthy data then parse_tracks_response MusicTrack data else Inr None,
      emit (HttpRequest (the (api_url env) @ ''/'' @ lstrip_slash endpoint) params) w)"
  using assms
  by (simp add: old_api_def make_api_request_def client_request_def split: sum.splits)

lemma old_api_unconfigured:
  "\<not> truthy_str (api_url env) \<or> \<not> truthy_str (api_key env) \<Longrightarrow>
   old_api MusicTrack env endpoint params w = (Inr None, log ERROR w)"
  by (auto simp: old_api_def make_api_request_def)

lemma has_results_dict:
  "has_results (JObj kvs) =
     Inr (case map_of kvs ''results'' of None \<Rightarrow> False | Some r \<Rightarrow> truthy r)"
proof (cases "map_of kvs ''results''")
  case None
  then have "''results'' \<notin> fst ` set kvs" by (simp add: map_of_eq_None_iff)
  with None show ?thesis by (simp add: has_results_def)
next
  case (Some r)
  then have "(''results'', r) \<in> set kvs" by (rule map_of_SomeD)
  then have "''results'' \<in> fst ` set kvs" "kvs \<noteq> []" by force+
  with Some show ?thesis by (simp add: has_results_def)
qed

text \<open>C4, as the code has it. In \<open>search\<close>, for a non-empty query that is not a recognised
  URL: an exception of the new search endpoint is caught, logged as a warning and not
  propagated, and the old API path then runs and its result is what \<open>search\<close> returns. That
  path requests the old endpoint and returns its parsed answer (\<^verbatim>\<open>None\<close> for an empty
  answer) if the API URL and key are configured; if they are not, it logs an error and
  returns \<^verbatim>\<open>None\<close> without any request. The old API path runs in exactly these cases: the
  new endpoint raises; its answer is empty, has no \<^verbatim>\<open>results\<close> or has an empty
  \<^verbatim>\<open>results\<close>; or looking at or parsing the answer raises. Otherwise the parsed answer of
  the new endpoint is returned after that one request.\<close>

theorem search_fallback:
  "truthy_str (query self) \<and> \<not> is_valid env (query self) \<longrightarrow>
     (make_request env new_search_url [(''q'', the (query self))] = Inl e \<longrightarrow>
        search MusicTrack env self w =
          old_api MusicTrack env ''search_track'' [(''q'', the (query self))]
            (log WARNING (emit (HttpRequest new_search_url [(''q'', the (query self))]) w)))
     \<and> (make_request env new_search_url [(''q'', the (query self))] = Inr response
          \<and> has_results response = Inr False \<longrightarrow>
        search MusicTrack env self w =
          old_api MusicTrack env ''search_track'' [(''q'', the (query self))]
            (emit (HttpRequest new_search_url [(''q'', the (query self))]) w))
     \<and> (make_request env new_search_url [(''q'', the (query self))] = Inr response
          \<and> (has_results response = Inl e
               \<or> (has_results response = Inr True
                   \<and> parse_tracks_response MusicTrack response = Inl e)) \<longrightarrow>
        search MusicTrack env self w =
          old_api MusicTrack env ''search_track'' [(''q'', the (query self))]
            (log WARNING (emit (HttpRequest new_search_url [(''q'', the (query self))]) w)))
     \<and> (make_request env new_search_url [(''q'', the (query self))] = Inr response
          \<and> has_results response = Inr True
          \<and> parse_tracks_response MusicTrack response = Inr r \<longrightarrow>
        search MusicTrack env self w =
          (Inr r, emit (HttpRequest new_search_url [(''q'', the (query self))]) w))
     \<and> (truthy_str (api_url env) \<and> truthy_str (api_key env) \<longrightarrow>
        old_api MusicTrack env ''search_track'' params w' =
          (case make_request env (the (api_url env) @ ''/search_track'') params of
             Inl e \<Rightarrow> Inl e
           | Inr data \<Rightarrow> if truthy data then parse_tracks_response MusicTrack data else Inr None,
           emit (HttpRequest (the (api_url env) @ ''/search_track'') params) w'))
     \<and> (\<not> truthy_str (api_url env) \<or> \<not> truthy_str (api_key env) \<longrightarrow>
        old_api MusicTrack env ''search_track'' params w' = (Inr None, log ERROR w'))
     \<and> has_results (JObj kvs) =
         Inr (case map_of kvs ''results'' of None \<Rightarrow> False | Some res \<Rightarrow> truthy res)
     \<and> has_results JNull = Inr False"
proof (intro impI conjI)
  assume q: "truthy_str (query self) \<and> \<not> is_valid env (query self)"
  {
    assume "make_request env new_search_url [(''q'', the (query self))] = Inl e"
    with q show "search MusicTrack env self w =
        old_api MusicTrack env ''search_track'' [(''q'', the (query self))]
          (log WARNING (emit (HttpRequest new_search_url [(''q'', the (query self))]) w))"
      by (simp add: search_primary_raises)
  next
    assume "make_request env new_search_url [(''q'', the (query self))] = Inr response
        \<and> has_results response = Inr False"
    with q show "search MusicTrack env self w =
        old_api MusicTrack env ''search_track'' [(''q'', the (query self))]
          (emit (HttpRequest new_search_url [(''q'', the (query self))]) w)"
      by (simp add: search_primary_empty)
  next
    assume "make_request env new_search_url [(''q'', the (query self))] = Inr response
        \<and> (has_results response = Inl e
             \<or> (has_results response = Inr True
                 \<and> parse_tracks_response MusicTrack response = Inl e))"
    with q show "search MusicTrack env self w =
        old_api MusicTrack env ''search_track'' [(''q'', the (query self))]
          (log WARNING (emit (HttpRequest new_search_url [(''q'', the (query self))]) w))"
      by (intro search_primary_unparsable [where response = response and e = e]) auto
  next
    assume "make_request env new_search_url [(''q'', the (query self))] = Inr response
        \<and> has_results response = Inr True
        \<and> parse_tracks_response MusicTrack response = Inr r"
    with q show "search MusicTrack env self w =
        (Inr r, emit (HttpRequest new_search_url [(''q'', the (query self))]) w)"
      by (simp add: search_primary_returns)
  next
    assume "truthy_str (api_url env) \<and> truthy_str (api_key env)"
    then show "old_api MusicTrack env ''search_track'' params w' =
        (case make_request env (the (api_url env) @ ''/search_track'') params of
           Inl e \<Rightarrow> Inl e
         | Inr data \<Rightarrow> if truthy data then parse_tracks_response MusicTrack data else Inr None,
         emit (HttpRequest (the (api_url env) @ ''/search_track'') params) w')"
      by (simp add: old_api_configured lstrip_slash_def)
  next
    assume "\<not> truthy_str (api_url env) \<or> \<not> truthy_str (api_key env)"
    then show "old_api MusicTrack env ''search_track'' params w' = (Inr None, log ERROR w')"
      by (rule old_api_unconfigured)
  next
    show "has_results (JObj kvs) =
        Inr (case map_of kvs ''results'' of None \<Rightarrow> False | Some res \<Rightarrow> truthy res)"
      by (rule has_results_dict)
  next
    show "has_results JNull = Inr False"
      by (simp add: has_results_def)
  }
qed

lemma self0_query: "truthy_str (query self0)" "the (query self0) = ''song''"
  by (simp_all add: self0_def truthy_str_def)

lemma api_url_example:
  "API_URL env = Some ''https://api.example/'' \<Longrightarrow> api_url env = Some ''https://api.example''"
  by (simp add: api_url_def truthy_str_def rstrip_slash_def)

lemma not_valid_without_match:
  "url_patterns_match env = (\<lambda>u. False) \<Longrightarrow> \<not> is_valid env u"
  by (simp add: is_valid_def)

lemma strict_track_id: "strict_track [(''id'', v)] = Inr [(''id'', v)]"
  by (simp add: strict_track_def)

lemma strict_track_bogus: "strict_track [(''bogus'', v)] = Inl TypeError"
  by (simp add: strict_track_def)

lemma parse_one_track:
  "parse_tracks_response strict_track (JObj [(''results'', JArr [JObj [(''id'', v)]])]) =
     Inr (Some [[(''id'', v)]])"
  by (simp add: parse_tracks_response_def strict_track_id)

lemma parse_bogus_track:
  "parse_tracks_response strict_track (JObj [(''results'', JArr [JObj [(''bogus'', v)]])]) =
     Inl TypeError"
  by (simp add: parse_tracks_response_def strict_track_bogus)

theorem search_fallback_witness:
  "truthy_str (query self0) \<and> \<not> is_valid env_fallback (query self0)
   \<and> make_request env_fallback new_search_url [(''q'', ''song'')] = Inl TransportError
   \<and> search strict_track env_fallback self0 world0 =
       (Inr (Some [[(''id'', JNum 1)]]),
        emit (HttpRequest ''https://api.example/search_track'' [(''q'', ''song'')])
          (log WARNING (emit (HttpRequest new_search_url [(''q'', ''song'')]) world0)))"
proof -
  let ?w1 = "log WARNING (emit (HttpRequest new_search_url [(''q'', ''song'')]) world0)"
  have sel: "API_URL env_fallback = Some ''https://api.example/''"
    "API_KEY env_fallback = Some ''secret''" "url_patterns_match env_fallback = (\<lambda>u. False)"
    by (simp_all add: env_fallback_def env_noapi_def env0_def)
  have nv: "\<not> is_valid env_fallback (query self0)"
    using sel(3) by (rule not_valid_without_match)
  have mr: "make_request env_fallback new_search_url [(''q'', ''song'')] = Inl TransportError"
    by (simp add: env_fallback_def env_noapi_def)
  have ne: "''https://api.example/search_track'' \<noteq> new_search_url"
    by (simp add: new_search_url_def)
  have mo: "make_request env_fallback ''https://api.example/search_track'' [(''q'', ''song'')] =
      Inr (JObj [(''results'', JArr [JObj [(''id'', JNum 1)]])])"
    using ne by (simp add: env_fallback_def env_noapi_def)
  have cfg: "truthy_str (api_url env_fallback)" "truthy_str (api_key env_fallback)"
    "the (api_url env_fallback) = ''https://api.example''"
    by (simp_all add: api_url_example [OF sel(1)] api_key_def sel truthy_str_def)
  note t = search_fallback [where self = self0 and env = env_fallback and e = TransportError
      and MusicTrack = strict_track and w = world0 and params = "[(''q'', ''song'')]"
      and w' = ?w1]
  from t self0_query nv mr
  have "search strict_track env_fallback self0 world0 =
      old_api strict_track env_fallback ''search_track'' [(''q'', ''song'')] ?w1"
    by simp
  moreover from t self0_query nv cfg
  have "old_api strict_track env_fallback ''search_track'' [(''q'', ''song'')] ?w1 =
      (case make_request env_fallback (''https://api.example'' @ ''/search_track'')
              [(''q'', ''song'')] of
         Inl e \<Rightarrow> Inl e
       | Inr data \<Rightarrow> if truthy data then parse_tracks_response strict_track data else Inr None,
       emit (HttpRequest (''https://api.example'' @ ''/search_track'') [(''q'', ''song'')]) ?w1)"
    by simp
  ultimately have "search strict_track env_fallback self0 world0 =
      (Inr (Some [[(''id'', JNum 1)]]),
       emit (HttpRequest ''https://api.example/search_track'' [(''q'', ''song'')]) ?w1)"
    by (simp add: mo parse_one_track)
  with self0_query nv mr show ?thesis by simp
qed

lemma search_unconfigured_run:
  "search strict_track env_noapi self0 world0 =
     (Inr None,
      log ERROR (log WARNING (emit (HttpRequest new_search_url [(''q'', ''song'')]) world0)))"
proof -
  have sel: "API_URL env_noapi = None" "url_patterns_match env_noapi = (\<lambda>u. False)"
    by (simp_all add: env_noapi_def env0_def)
  have nv: "\<not> is_valid env_noapi (query self0)"
    using sel(2) by (rule not_valid_without_match)
  have mr: "make_request env_noapi new_search_url [(''q'', the (query self0))] = Inl TransportError"
    by (simp add: env_noapi_def)
  have nc: "\<not> truthy_str (api_url env_noapi)"
    by (simp add: api_url_def sel truthy_str_def)
  show ?thesis
    using search_primary_raises [OF self0_query(1) nv mr, of strict_track world0] nc
    by (simp add: old_api_unconfigured self0_query)
qed

lemma search_bogus_run:
  "search strict_track env_bogus self0 world0 =
     (Inr (Some [[(''id'', JNum 2)]]),
      emit (HttpRequest ''https://api.example/search_track'' [(''q'', ''song'')])
        (log WARNING (emit (HttpRequest new_search_url [(''q'', ''song'')]) world0)))"
proof -
  let ?resp = "JObj [(''results'', JArr [JObj [(''bogus'', JNum 1)]])]"
  have sel: "API_URL env_bogus = Some ''https://api.example/''"
    "API_KEY env_bogus = Some ''secret''" "url_patterns_match env_bogus = (\<lambda>u. False)"
    by (simp_all add: env_bogus_def env0_def)
  have nv: "\<not> is_valid env_bogus (query self0)"
    using sel(3) by (rule not_valid_without_match)
  have mr: "make_request env_bogus new_search_url [(''q'', the (query self0))] = Inr ?resp"
    by (simp add: env_bogus_def)
  have hr: "has_results ?resp = Inr True"
    by (simp add: has_results_dict)
  have ne: "''https://api.example/search_track'' \<noteq> new_search_url"
    by (simp add: new_search_url_def)
  have mo: "make_request env_bogus ''https://api.example/search_track'' [(''q'', ''song'')] =
      Inr (JObj [(''results'', JArr [JObj [(''id'', JNum 2)]])])"
    using ne by (simp add: env_bogus_def)
  have cfg: "truthy_str (api_url env_bogus)" "truthy_str (api_key env_bogus)"
    "the (api_url env_bogus) = ''https://api.example''"
    by (simp_all add: api_url_example [OF sel(1)] api_key_def sel truthy_str_def)
  have "search strict_track env_bogus self0 world0 =
      old_api strict_track env_bogus ''search_track'' [(''q'', the (query self0))]
        (log WARNING (emit (HttpRequest new_search_url [(''q'', the (query self0))]) world0))"
    using hr parse_bogus_track
    by (intro search_primary_unparsable [OF self0_query(1) nv mr, where e = TypeError]) simp
  then show ?thesis
    by (simp add: old_api_configured cfg self0_query lstrip_slash_def mo parse_one_track)
qed

theorem search_fallback_counterexample:
  "(make_request env_noapi new_search_url [(''q'', ''song'')] = Inl TransportError
    \<and> fst (search strict_track env_noapi self0 world0) = Inr None
    \<and> events (snd (search strict_track env_noapi self0 world0)) =
        [HttpRequest new_search_url [(''q'', ''song'')], Log WARNING, Log ERROR])
   \<and> (make_request env_bogus new_search_url [(''q'', ''song'')] =
        Inr (JObj [(''results'', JArr [JObj [(''bogus'', JNum 1)]])])
    \<and> fst (search strict_track env_bogus self0 world0) = Inr (Some [[(''id'', JNum 2)]])
    \<and> events (snd (search strict_track env_bogus self0 world0)) =
        [HttpRequest new_search_url [(''q'', ''song'')], Log WARNING,
         HttpRequest ''https://api.example/search_track'' [(''q'', ''song'')]])"
proof -
  have "make_request env_noapi new_search_url [(''q'', ''song'')] = Inl TransportError"
    by (simp add: env_noapi_def)
  moreover have "make_request env_bogus new_search_url [(''q'', ''song'')] =
      Inr (JObj [(''results'', JArr [JObj [(''bogus'', JNum 1)]])])"
    by (simp add: env_bogus_def)
  ultimately show ?thesis
    by (simp add: search_unconfigured_run search_bogus_run events_world0)
qed

end
